theory Spec2Isabelle
  imports Complex_Main "HOL-Library.Word"
begin

unbundle bit_operations_syntax

section \<open>Python values used by \<^verbatim>\<open>bezi_bridge.py\<close>\<close>

text \<open>
  Exceptions are values. \<open>SystemExit\<close> is kept apart from the subclasses of
  \<open>Exception\<close>, because \<^verbatim>\<open>except Exception\<close> lets it pass and a bare
  \<^verbatim>\<open>except:\<close> does not.
\<close>

datatype exn =
    ValueError | IndexError | AttributeError | TypeError | OSError
  | JSONDecodeError | ElementNotFoundError | TimeoutError | AppStartError

text \<open>
  A Python float: a finite value (a rational here; every IEEE double is one), the two
  infinities and NaN. \<open>float_gt a b\<close> is Python's \<^verbatim>\<open>a > b\<close>: every comparison
  with NaN is false.
\<close>

datatype pyfloat = NaN | NegInf | Fin rat | PosInf

fun float_gt :: "pyfloat \<Rightarrow> pyfloat \<Rightarrow> bool" where
  "float_gt NaN b = False"
| "float_gt a NaN = False"
| "float_gt PosInf PosInf = False"
| "float_gt PosInf b = True"
| "float_gt a PosInf = False"
| "float_gt NegInf b = False"
| "float_gt (Fin x) NegInf = True"
| "float_gt (Fin x) (Fin y) = (y < x)"

definition float_lt :: "pyfloat \<Rightarrow> pyfloat \<Rightarrow> bool" where
  "float_lt a b = float_gt b a"

text \<open>The literals \<^verbatim>\<open>0.90\<close> and \<^verbatim>\<open>0.95\<close> as the doubles Python reads them as.\<close>

definition py_0_90 :: pyfloat where
  "py_0_90 = Fin (8106479329266893 / 9007199254740992)"

definition py_0_95 :: pyfloat where
  "py_0_95 = Fin (4278419646001971 / 4503599627370496)"

section \<open>Images and numpy arrays\<close>

text \<open>
  An RGB image of PIL: its size and its pixels in row-major order. \<open>np.array\<close> turns it
  into an array of shape \<open>(height, width, 3)\<close> of unsigned bytes. An image whose buffer
  does not hold \<open>height * width\<close> pixels is malformed, and the conversion raises.
\<close>

type_synonym pixel = "8 word \<times> 8 word \<times> 8 word"

record image =
  img_width :: nat
  img_height :: nat
  img_data :: "pixel list"

record ndarray =
  shape :: "nat list"
  elems :: "8 word list"

definition wf_image :: "image \<Rightarrow> bool" where
  "wf_image img = (length (img_data img) = img_height img * img_width img)"

definition np_array :: "image \<Rightarrow> exn + ndarray" where
  "np_array img =
     (if length (img_data img) = img_height img * img_width img
      then Inr \<lparr>shape = [img_height img, img_width img, 3],
                elems = concat (map (\<lambda>(r, g, b). [r, g, b]) (img_data img))\<rparr>
      else Inl ValueError)"

text \<open>
  \<open>np.mean\<close> of a boolean array sums it in double precision (exact below \<open>2 ^ 53\<close>
  elements) and divides by the number of elements with one correctly rounded division;
  on an empty array the result is NaN. \<open>float64_div c n\<close> is the double nearest to
  \<open>c / n\<close> (ties to even) for \<open>c \<le> n\<close>: the significand has 53 bits.
\<close>

fun bit_length :: "nat \<Rightarrow> nat" where
  "bit_length n = (if n = 0 then 0 else Suc (bit_length (n div 2)))"

declare bit_length.simps [simp del]

definition round_half_even_div :: "nat \<Rightarrow> nat \<Rightarrow> nat" where
  "round_half_even_div a b =
     (let q = a div b; r = a mod b
      in if 2 * r < b then q else if b < 2 * r then q + 1
         else if even q then q else q + 1)"

definition float64_div :: "nat \<Rightarrow> nat \<Rightarrow> rat" where
  "float64_div c n =
     (if c = 0 then 0
      else (let d = bit_length n - bit_length c;
                k = (if n \<le> c * 2 ^ d then d else d + 1);
                m = round_half_even_div (c * 2 ^ (52 + k)) n
            in of_nat m / 2 ^ (52 + k)))"

definition np_mean :: "bool list \<Rightarrow> pyfloat" where
  "np_mean bs =
     (if bs = [] then NaN
      else Fin (float64_div (length (filter (\<lambda>b. b) bs)) (length bs)))"

section \<open>Fingerprint matcher: \<^verbatim>\<open>BeziBridge.images_match\<close>\<close>

text \<open>
  \<open>images_match_try\<close> is the body of the \<^verbatim>\<open>try\<close> block; \<open>images_match\<close> adds the
  bare \<^verbatim>\<open>except: return False\<close>.
\<close>

definition images_match_try :: "image \<Rightarrow> image \<Rightarrow> pyfloat \<Rightarrow> exn + bool" where
  "images_match_try img1 img2 threshold =
     (case np_array img1 of
        Inl e \<Rightarrow> Inl e
      | Inr i1 \<Rightarrow>
          (case np_array img2 of
             Inl e \<Rightarrow> Inl e
           | Inr i2 \<Rightarrow>
               if shape i1 \<noteq> shape i2 then Inr False
               else (let matching = np_mean (map2 (\<lambda>x y. x = y) (elems i1) (elems i2))
                     in Inr (float_gt matching threshold))))"

definition images_match :: "image \<Rightarrow> image \<Rightarrow> pyfloat \<Rightarrow> bool" where
  "images_match img1 img2 threshold =
     (case images_match_try img1 img2 threshold of Inl e \<Rightarrow> False | Inr b \<Rightarrow> b)"

section \<open>The window-automation boundary\<close>

text \<open>
  What pywinauto, the file system and \<open>kernel32\<close> answer is not code of the repository:
  it is a parameter of the model, the \<open>world\<close>. Every call across the boundary is recorded
  as an event of the trace, and the answer to a call may depend on the number of events
  before it (the time \<open>now\<close>), so the window can change between any two calls and any
  call can raise where pywinauto can.

  A control is the snapshot one enumeration of the descendants returns: its control
  type, what \<open>rectangle()\<close> gives (width and height), \<open>window_text()\<close> and
  \<open>capture_as_image().convert('RGB')\<close>.
\<close>

datatype control_type = Edit | Text | Button | Pane

record control =
  ctl_type :: control_type
  ctl_rectangle :: "exn + (int \<times> int)"
  ctl_window_text :: "exn + string"
  ctl_capture :: "exn + image"

datatype activity = BUSY | INACTIVE | READY | UNKNOWN

text \<open>
  \<open>send_prompt\<close> returns \<^verbatim>\<open>False\<close> or the list of texts; \<open>run\<close> returns a pair of a
  flag and a message or what \<open>send_prompt\<close> returned.
\<close>

datatype submission = ReturnedFalse | Texts "string list"

datatype run_result = Message string | Submission submission

datatype window = BeziWindow

record config =
  initialized :: bool
  cfg_bezi_path :: "string option"

record cli_args =
  prompt :: "string option"
  arg_bezi_path :: "string option"
  init :: bool
  debug :: bool

datatype event =
    SetThreadExecutionState "32 word"
  | OpenImage string
  | Connect
  | Start string
  | Descendants
  | SetFocus
  | TypeKeys string
  | SetText string
  | ClickInput string
  | CaptureAsImage
  | Sleep nat
  | Reading activity
  | PrintErr string
  | PrintOut run_result
  | Traceback exn
  | LoadConfig
  | SaveConfig config
  | ReadFile string
  | SaveTimings

record world =
  image_files :: "string \<Rightarrow> exn + image"
  config_on_disk :: "(exn + config option) option"
  text_files :: "string \<Rightarrow> (exn + string) option"
  connect :: "nat \<Rightarrow> exn + unit"
  start :: "nat \<Rightarrow> string \<Rightarrow> exn + unit"
  descendants :: "nat \<Rightarrow> exn + control list"
  set_focus :: "nat \<Rightarrow> exn + unit"
  type_keys :: "nat \<Rightarrow> string \<Rightarrow> exn + unit"
  set_text :: "nat \<Rightarrow> control \<Rightarrow> string \<Rightarrow> exn + unit"
  click_input :: "nat \<Rightarrow> string \<Rightarrow> exn + unit"
  json_dump :: "nat \<Rightarrow> exn + unit"

section \<open>The state of a \<^verbatim>\<open>BeziBridge\<close> and its actions\<close>

text \<open>
  The attributes of the object, the execution state of the thread that
  \<open>SetThreadExecutionState\<close> sets, and the trace. The three reference images are
  \<open>None\<close> as long as \<^verbatim>\<open>__init__\<close> has not assigned the attribute: reading such an
  attribute raises \<open>AttributeError\<close>. The width and height of the submit button are
  assigned once and never changed: they are constants.
\<close>

record bridge =
  config_file :: string
  bezi_prompt :: "string option"
  bezi_path :: "string option"
  args :: "cli_args option"
  config :: "config option"
  bezi_window :: "window option"
  ready_icon_inactive :: "image option"
  ready_icon_active :: "image option"
  ready_icon_busy :: "image option"
  execution_state :: "32 word"
  trace :: "event list"

definition bezi_submit_btn_width :: int where
  "bezi_submit_btn_width = 56"

definition bezi_submit_btn_height :: int where
  "bezi_submit_btn_height = 56"

definition ES_CONTINUOUS :: "32 word" where
  "ES_CONTINUOUS = 0x80000000"

definition ES_SYSTEM_REQUIRED :: "32 word" where
  "ES_SYSTEM_REQUIRED = 0x00000001"

definition ES_DISPLAY_REQUIRED :: "32 word" where
  "ES_DISPLAY_REQUIRED = 0x00000002"

text \<open>
  An action takes the state and returns the new state with either a value or the way
  control left: an exception, \<^verbatim>\<open>exit(k)\<close> (\<open>SystemExit\<close>), or the end of the fuel
  that bounds the polling loops (a run that is still polling).
\<close>

datatype abort = Raise exn | Exit nat | OutOfFuel

type_synonym 'a act = "bridge \<Rightarrow> (abort + 'a) \<times> bridge"

definition ret :: "'a \<Rightarrow> 'a act" where
  "ret x s = (Inr x, s)"

definition bnd :: "'a act \<Rightarrow> ('a \<Rightarrow> 'b act) \<Rightarrow> 'b act" where
  "bnd m f s = (case m s of (Inl a, s') \<Rightarrow> (Inl a, s') | (Inr x, s') \<Rightarrow> f x s')"

definition raise :: "exn \<Rightarrow> 'a act" where
  "raise e s = (Inl (Raise e), s)"

definition py_exit :: "nat \<Rightarrow> 'a act" where
  "py_exit k s = (Inl (Exit k), s)"

definition modify :: "(bridge \<Rightarrow> bridge) \<Rightarrow> unit act" where
  "modify f s = (Inr (), f s)"

definition emit :: "event \<Rightarrow> unit act" where
  "emit e s = (Inr (), s\<lparr>trace := trace s @ [e]\<rparr>)"

definition lift_exn :: "exn + 'a \<Rightarrow> 'a act" where
  "lift_exn r s = (case r of Inl e \<Rightarrow> (Inl (Raise e), s) | Inr v \<Rightarrow> (Inr v, s))"

definition now :: "bridge \<Rightarrow> nat" where
  "now s = length (trace s)"

text \<open>A call across the boundary: the world answers for the time of the call.\<close>

definition ui_call :: "event \<Rightarrow> (nat \<Rightarrow> exn + 'a) \<Rightarrow> 'a act" where
  "ui_call e f s = lift_exn (f (now s)) (s\<lparr>trace := trace s @ [e]\<rparr>)"

definition getattr :: "(bridge \<Rightarrow> 'a option) \<Rightarrow> exn \<Rightarrow> 'a act" where
  "getattr field e s = (case field s of None \<Rightarrow> (Inl (Raise e), s) | Some v \<Rightarrow> (Inr v, s))"

text \<open>
  \<^verbatim>\<open>try: m except Exception as e: h e\<close>, the bare \<^verbatim>\<open>try: m except: h\<close>, which
  catches \<open>SystemExit\<close> too, and \<^verbatim>\<open>try: m finally: c\<close>.
\<close>

definition try_except :: "'a act \<Rightarrow> (exn \<Rightarrow> 'a act) \<Rightarrow> 'a act" where
  "try_except m h s =
     (case m s of (Inl (Raise e), s') \<Rightarrow> h e s' | (r, s') \<Rightarrow> (r, s'))"

definition try_except_bare :: "'a act \<Rightarrow> 'a act \<Rightarrow> 'a act" where
  "try_except_bare m h s =
     (case m s of
        (Inl (Raise e), s') \<Rightarrow> h s'
      | (Inl (Exit k), s') \<Rightarrow> h s'
      | (r, s') \<Rightarrow> (r, s'))"

definition try_finally :: "'a act \<Rightarrow> unit act \<Rightarrow> 'a act" where
  "try_finally m c s =
     (case m s of
        (Inl OutOfFuel, s') \<Rightarrow> (Inl OutOfFuel, s')
      | (r, s') \<Rightarrow> (case c s' of (Inl a, s'') \<Rightarrow> (Inl a, s'') | (Inr u, s'') \<Rightarrow> (r, s'')))"

text \<open>Python truthiness of an optional string, and \<^verbatim>\<open>a or b\<close> on such values.\<close>

definition truthy :: "string option \<Rightarrow> bool" where
  "truthy v = (case v of None \<Rightarrow> False | Some t \<Rightarrow> t \<noteq> [])"

definition py_or :: "string option \<Rightarrow> string option \<Rightarrow> string option" where
  "py_or a b = (if truthy a then a else b)"

text \<open>
  \<^verbatim>\<open>str.strip()\<close>: the characters of a \<open>string\<close> are the code points below 256,
  and these are the ones among them that Python counts as whitespace.
\<close>

definition is_space :: "char \<Rightarrow> bool" where
  "is_space c =
     (c \<in> set [CHR 0x09, CHR 0x0A, CHR 0x0B, CHR 0x0C, CHR 0x0D, CHR 0x1C, CHR 0x1D,
               CHR 0x1E, CHR 0x1F, CHR '' '', CHR 0x85, CHR 0xA0])"

definition strip :: "string \<Rightarrow> string" where
  "strip t = rev (dropWhile is_space (rev (dropWhile is_space t)))"

definition default_bezi_path :: string where
  "default_bezi_path =
     ''C:'' @ [CHR 0x5C] @ ''Program Files'' @ [CHR 0x5C] @ ''Bezi'' @ [CHR 0x5C] @ ''Bezi.exe''"

definition print_err :: "string \<Rightarrow> unit act" where
  "print_err msg = emit (PrintErr msg)"

definition sleep :: "nat \<Rightarrow> unit act" where
  "sleep k = emit (Sleep k)"

section \<open>The methods of \<^verbatim>\<open>BeziBridge\<close>\<close>

text \<open>
  The decorator \<^verbatim>\<open>debug_trace\<close> and the \<^verbatim>\<open>PerformanceLogger\<close> record the
  duration of each call (and print entry and exit lines under \<^verbatim>\<open>--debug\<close>); the
  wrapper returns what the method returns and lets every exception through, so the
  methods are modelled without it. Of the logger only the final \<^verbatim>\<open>save_timings\<close>
  appears, as an event.

  \<^verbatim>\<open>__init__\<close>: the three reference images are opened in the order inactive, active,
  busy inside one \<^verbatim>\<open>try\<close>; the first failure is printed and leaves the remaining
  attributes unassigned. \<open>blank\<close> is the object before \<^verbatim>\<open>__init__\<close>.
\<close>

definition blank :: bridge where
  "blank = \<lparr>config_file = [], bezi_prompt = None, bezi_path = None, args = None,
             config = None, bezi_window = None, ready_icon_inactive = None,
             ready_icon_active = None, ready_icon_busy = None,
             execution_state = ES_CONTINUOUS, trace = []\<rparr>"

definition image_open :: "world \<Rightarrow> string \<Rightarrow> image act" where
  "image_open w name = bnd (emit (OpenImage name)) (\<lambda>u. lift_exn (image_files w name))"

definition BeziBridge_init :: "world \<Rightarrow> unit act" where
  "BeziBridge_init w =
     bnd (modify (\<lambda>s. s\<lparr>config_file := ''bezi_bridge.json'', bezi_prompt := Some [],
                          bezi_path := Some [], args := None, config := None,
                          bezi_window := None\<rparr>)) (\<lambda>u.
     try_except
       (bnd (image_open w ''ref_ready.png'') (\<lambda>i.
        bnd (modify (\<lambda>s. s\<lparr>ready_icon_inactive := Some i\<rparr>)) (\<lambda>u.
        bnd (image_open w ''ref_ready_active.png'') (\<lambda>a.
        bnd (modify (\<lambda>s. s\<lparr>ready_icon_active := Some a\<rparr>)) (\<lambda>u.
        bnd (image_open w ''ref_busy.png'') (\<lambda>b.
        modify (\<lambda>s. s\<lparr>ready_icon_busy := Some b\<rparr>)))))))
       (\<lambda>e. print_err ''Error loading reference images''))"

definition set_keep_awake :: "bool \<Rightarrow> unit act" where
  "set_keep_awake keep_awake =
     (if keep_awake
      then (let flags = ES_CONTINUOUS OR ES_SYSTEM_REQUIRED OR ES_DISPLAY_REQUIRED
            in bnd (emit (SetThreadExecutionState flags)) (\<lambda>u.
               modify (\<lambda>s. s\<lparr>execution_state := flags\<rparr>)))
      else bnd (emit (SetThreadExecutionState ES_CONTINUOUS)) (\<lambda>u.
           modify (\<lambda>s. s\<lparr>execution_state := ES_CONTINUOUS\<rparr>)))"

definition find_windows :: "world \<Rightarrow> unit act" where
  "find_windows w =
     try_except
       (bnd (ui_call Connect (connect w)) (\<lambda>u.
        modify (\<lambda>s. s\<lparr>bezi_window := Some BeziWindow\<rparr>)))
       (\<lambda>e.
        bnd (print_err ''Exception connection to Bezi app.'') (\<lambda>u.
        bnd (print_err ''Attempting to launch exe.'') (\<lambda>u.
        bnd (modify (\<lambda>s. if \<not> truthy (bezi_path s)
                          then s\<lparr>bezi_path := Some default_bezi_path\<rparr> else s)) (\<lambda>u.
        bnd (getattr bezi_path TypeError) (\<lambda>path.
        bnd (ui_call (Start path) (\<lambda>t. start w t path)) (\<lambda>u.
        modify (\<lambda>s. s\<lparr>bezi_window := Some BeziWindow\<rparr>)))))))"

text \<open>
  \<^verbatim>\<open>self.bezi_window.descendants(...)\<close>: on \<^verbatim>\<open>None\<close> the attribute access raises;
  a control type filters the enumeration.
\<close>

definition window_descendants :: "world \<Rightarrow> control_type option \<Rightarrow> control list act" where
  "window_descendants w ty =
     bnd (getattr bezi_window AttributeError) (\<lambda>win.
     bnd (ui_call Descendants (descendants w)) (\<lambda>items.
     ret (case ty of None \<Rightarrow> items | Some t \<Rightarrow> filter (\<lambda>c. ctl_type c = t) items)))"

text \<open>The \<^verbatim>\<open>for\<close> loop of \<^verbatim>\<open>find_submit_button\<close> over the enumerated controls.\<close>

fun first_of_size :: "control list \<Rightarrow> exn + control option" where
  "first_of_size [] = Inr None"
| "first_of_size (item # rest) =
     (case ctl_rectangle item of
        Inl e \<Rightarrow> Inl e
      | Inr (width, height) \<Rightarrow>
          if width = bezi_submit_btn_width \<and> height = bezi_submit_btn_height
          then Inr (Some item)
          else first_of_size rest)"

definition find_submit_button :: "world \<Rightarrow> control option act" where
  "find_submit_button w =
     bnd (window_descendants w None) (\<lambda>all_descendants.
     lift_exn (first_of_size all_descendants))"

definition get_button_state :: "control \<Rightarrow> activity act" where
  "get_button_state btn_wrapper =
     bnd (emit CaptureAsImage) (\<lambda>u.
     bnd (lift_exn (ctl_capture btn_wrapper)) (\<lambda>current_img.
     bnd (getattr ready_icon_busy AttributeError) (\<lambda>busy.
     if images_match busy current_img py_0_90 then ret BUSY
     else
     bnd (getattr ready_icon_inactive AttributeError) (\<lambda>inactive.
     if images_match inactive current_img py_0_90 then ret INACTIVE
     else
     bnd (getattr ready_icon_active AttributeError) (\<lambda>active.
     if images_match active current_img py_0_90 then ret READY
     else ret UNKNOWN)))))"

text \<open>
  \<^verbatim>\<open>get_bezi_state\<close>; the value it returns is recorded as the event \<open>Reading\<close>, the
  most recent classification a later event can be compared with.
\<close>

definition get_bezi_state :: "world \<Rightarrow> activity act" where
  "get_bezi_state w =
     bnd (find_windows w) (\<lambda>u.
     bnd (find_submit_button w) (\<lambda>button.
     case button of
       None \<Rightarrow> bnd (print_err ''unable to find submit button'') (\<lambda>u. py_exit 1)
     | Some b \<Rightarrow>
         bnd (get_button_state b) (\<lambda>state.
         bnd (emit (Reading state)) (\<lambda>u.
         ret state))))"

definition click_button_by_name :: "world \<Rightarrow> string \<Rightarrow> bool act" where
  "click_button_by_name w button_name =
     try_except_bare
       (bnd (getattr bezi_window AttributeError) (\<lambda>win.
        bnd (ui_call (ClickInput button_name) (\<lambda>t. click_input w t button_name)) (\<lambda>u.
        ret True)))
       (ret False)"

definition close_dialogs :: "world \<Rightarrow> unit act" where
  "close_dialogs w =
     bnd (click_button_by_name w ''Continue'') (\<lambda>c.
     bnd (find_windows w) (\<lambda>u.
     bnd (click_button_by_name w ''Keep All'') (\<lambda>k.
     find_windows w)))"

definition new_thread :: "world \<Rightarrow> unit act" where
  "new_thread w =
     bnd (getattr bezi_window AttributeError) (\<lambda>win.
     bnd (ui_call SetFocus (set_focus w)) (\<lambda>u.
     bnd (ui_call (TypeKeys ''^T'') (\<lambda>t. type_keys w t ''^T'')) (\<lambda>u.
     bnd (sleep 1) (\<lambda>u.
     bnd (find_windows w) (\<lambda>u.
     close_dialogs w)))))"

text \<open>
  The loop \<^verbatim>\<open>while "INACTIVE" != self.get_bezi_state(): close_dialogs(); sleep(1)\<close>,
  which \<^verbatim>\<open>send_prompt\<close> runs before and after the submission. The fuel bounds the
  number of readings; a loop that has not ended by then is still polling.
\<close>

fun wait_until_inactive :: "world \<Rightarrow> nat \<Rightarrow> unit act" where
  "wait_until_inactive w 0 = (\<lambda>s. (Inl OutOfFuel, s))"
| "wait_until_inactive w (Suc n) =
     bnd (get_bezi_state w) (\<lambda>state.
     if INACTIVE \<noteq> state
     then bnd (close_dialogs w) (\<lambda>u.
          bnd (sleep 1) (\<lambda>u.
          wait_until_inactive w n))
     else ret ())"

definition py_last :: "'a list \<Rightarrow> exn + 'a" where
  "py_last xs = (if xs = [] then Inl IndexError else Inr (last xs))"

fun window_texts :: "control list \<Rightarrow> exn + string list" where
  "window_texts [] = Inr []"
| "window_texts (e # es) =
     (case ctl_window_text e of
        Inl x \<Rightarrow> Inl x
      | Inr t \<Rightarrow> (case window_texts es of Inl x \<Rightarrow> Inl x | Inr ts \<Rightarrow> Inr (strip t # ts)))"

text \<open>
  \<^verbatim>\<open>send_prompt\<close>. The \<^verbatim>\<open>try\<close> block gives \<open>True\<close> when control falls through it
  and \<open>False\<close> when its handler returns \<^verbatim>\<open>False\<close> from the method.
\<close>

definition send_prompt :: "world \<Rightarrow> nat \<Rightarrow> string option \<Rightarrow> submission act" where
  "send_prompt w n message =
     (case (if \<not> truthy message then None else message) of
        None \<Rightarrow> raise ValueError
      | Some text \<Rightarrow>
        bnd (wait_until_inactive w n) (\<lambda>u.
        bnd (close_dialogs w) (\<lambda>u.
        bnd (try_except
               (bnd (find_windows w) (\<lambda>u.
                bnd (window_descendants w (Some Edit)) (\<lambda>edits.
                bnd (lift_exn (py_last edits)) (\<lambda>prompt_box.
                bnd (ui_call (SetText text) (\<lambda>t. set_text w t prompt_box text)) (\<lambda>u.
                bnd (sleep 1) (\<lambda>u.
                bnd (ui_call (TypeKeys ''{ENTER}'') (\<lambda>t. type_keys w t ''{ENTER}'')) (\<lambda>u.
                bnd (sleep 2) (\<lambda>u.
                ret True))))))))
               (\<lambda>e. bnd (print_err ''unable to find prompt box'') (\<lambda>u. ret False)))
            (\<lambda>submitted.
        if \<not> submitted then ret ReturnedFalse
        else
          bnd (find_windows w) (\<lambda>u.
          bnd (wait_until_inactive w n) (\<lambda>u.
          bnd (close_dialogs w) (\<lambda>u.
          bnd (find_windows w) (\<lambda>u.
          bnd (window_descendants w (Some Text)) (\<lambda>elements.
          lift_exn (map_sum id Texts (window_texts elements)))))))))))"

text \<open>
  \<^verbatim>\<open>load_config\<close>, \<^verbatim>\<open>save_config\<close>, \<^verbatim>\<open>parse_arguments\<close> and
  \<^verbatim>\<open>validate_arguments\<close>. The command line is taken as parsed: \<open>argparse\<close> ends
  the process itself on a malformed one, before anything of \<open>run\<close>. The stored
  configuration is a dictionary or \<^verbatim>\<open>null\<close> (\<open>None\<close>); \<open>validate_arguments\<close> reads
  it where the code does: to assign into it on an initialization run, and otherwise
  only when no executable path was given on the command line.
\<close>

definition load_config :: "world \<Rightarrow> config option act" where
  "load_config w =
     (case config_on_disk w of
        Some stored \<Rightarrow> bnd (emit LoadConfig) (\<lambda>u. lift_exn stored)
      | None \<Rightarrow> ret (Some \<lparr>initialized = False, cfg_bezi_path = None\<rparr>))"

definition save_config :: "world \<Rightarrow> config \<Rightarrow> unit act" where
  "save_config w c = ui_call (SaveConfig c) (json_dump w)"

definition parse_arguments :: "cli_args \<Rightarrow> cli_args act" where
  "parse_arguments a = bnd (modify (\<lambda>s. s\<lparr>args := Some a\<rparr>)) (\<lambda>u. ret a)"

text \<open>
  \<^verbatim>\<open>self.args.prompt and os.path.exists(self.args.prompt)\<close>: the path and what
  reading the file gives, when the prompt is a non-empty string that names a file.
\<close>

definition prompt_file :: "world \<Rightarrow> string option \<Rightarrow> (string \<times> (exn + string)) option" where
  "prompt_file w p =
     (case p of
        None \<Rightarrow> None
      | Some path \<Rightarrow>
          if path = [] then None
          else (case text_files w path of None \<Rightarrow> None | Some content \<Rightarrow> Some (path, content)))"

definition validate_arguments :: "world \<Rightarrow> bool act" where
  "validate_arguments w =
     bnd (getattr args AttributeError) (\<lambda>a.
     if init a
     then
       bnd (getattr config TypeError) (\<lambda>c.
       (let c' = \<lparr>initialized = True,
                  cfg_bezi_path = py_or (arg_bezi_path a) (Some default_bezi_path)\<rparr>
        in bnd (modify (\<lambda>s. s\<lparr>config := Some c', bezi_path := cfg_bezi_path c'\<rparr>)) (\<lambda>u.
           ret True)))
     else
       bnd (if truthy (arg_bezi_path a) then ret (arg_bezi_path a)
            else bnd (getattr config AttributeError) (\<lambda>c. ret (cfg_bezi_path c))) (\<lambda>path.
       bnd (modify (\<lambda>s. s\<lparr>bezi_path := path\<rparr>)) (\<lambda>u.
       bnd (case prompt_file w (prompt a) of
              Some (path, content) \<Rightarrow>
                bnd (emit (ReadFile path)) (\<lambda>u.
                bnd (lift_exn content) (\<lambda>text.
                modify (\<lambda>s. s\<lparr>bezi_prompt := Some text\<rparr>)))
            | None \<Rightarrow> modify (\<lambda>s. s\<lparr>bezi_prompt := prompt a\<rparr>)) (\<lambda>u.
       ret True))))"

text \<open>
  \<^verbatim>\<open>run\<close>: \<open>run_try\<close> is the body of its \<^verbatim>\<open>try\<close>, and the \<^verbatim>\<open>finally\<close> resets
  the execution state.
\<close>

definition run_try :: "world \<Rightarrow> nat \<Rightarrow> cli_args \<Rightarrow> (bool \<times> run_result) act" where
  "run_try w n a =
     bnd (load_config w) (\<lambda>c.
     bnd (modify (\<lambda>s. s\<lparr>config := c\<rparr>)) (\<lambda>u.
     bnd (parse_arguments a) (\<lambda>parsed.
     bnd (find_windows w) (\<lambda>u.
     bnd (validate_arguments w) (\<lambda>valid.
     if \<not> valid then ret (False, Message ''Invalid Args'')
     else
     bnd (getattr args AttributeError) (\<lambda>a'.
     if init a'
     then bnd (getattr config TypeError) (\<lambda>c'.
          bnd (save_config w c') (\<lambda>u.
          ret (True, Message ''Initialization Complete'')))
     else
     bnd (new_thread w) (\<lambda>u.
     bnd (\<lambda>s. send_prompt w n (bezi_prompt s) s) (\<lambda>result.
     ret (True, Submission result)))))))))"

definition run :: "world \<Rightarrow> nat \<Rightarrow> cli_args \<Rightarrow> (bool \<times> run_result) act" where
  "run w n a =
     bnd (set_keep_awake True) (\<lambda>u.
     try_finally (run_try w n a) (set_keep_awake False))"

text \<open>
  The script: the object is built, the arguments parsed, \<open>run\<close> called inside a
  \<^verbatim>\<open>try\<close> whose \<^verbatim>\<open>finally\<close> saves the timings. What is left of the process is
  its exit status: 0 when the script ends, 1 with a traceback when an exception leaves
  it, \<open>k\<close> after \<^verbatim>\<open>exit(k)\<close>, and none while it is still polling.
\<close>

definition script :: "world \<Rightarrow> nat \<Rightarrow> cli_args \<Rightarrow> unit act" where
  "script w n a =
     bnd (BeziBridge_init w) (\<lambda>u.
     bnd (parse_arguments a) (\<lambda>parsed.
     try_finally
       (bnd (run w n a) (\<lambda>(success, result).
        if success then emit (PrintOut result) else ret ()))
       (emit SaveTimings)))"

definition main :: "world \<Rightarrow> nat \<Rightarrow> cli_args \<Rightarrow> nat option \<times> event list" where
  "main w n a =
     (case script w n a blank of
        (Inr u, s) \<Rightarrow> (Some 0, trace s)
      | (Inl (Raise e), s) \<Rightarrow> (Some 1, trace s @ [Traceback e])
      | (Inl (Exit k), s) \<Rightarrow> (Some k, trace s)
      | (Inl OutOfFuel, s) \<Rightarrow> (None, trace s))"

section \<open>Definitions used to state the properties\<close>

text \<open>An image of one colour, as the reference icons and captures of the examples are.\<close>

definition solid :: "nat \<Rightarrow> nat \<Rightarrow> pixel \<Rightarrow> image" where
  "solid wd ht p = \<lparr>img_width = wd, img_height = ht, img_data = replicate (ht * wd) p\<rparr>"

text \<open>
  The events an action adds to the trace, and the actions that add only events of one
  kind.
\<close>

definition new_events :: "bridge \<Rightarrow> bridge \<Rightarrow> event list" where
  "new_events s s' = drop (length (trace s)) (trace s')"

definition emits :: "(event \<Rightarrow> bool) \<Rightarrow> 'a act \<Rightarrow> bool" where
  "emits P m = (\<forall>s. \<exists>evs. trace (snd (m s)) = trace s @ evs \<and> list_all P evs)"

fun housekeeping :: "event \<Rightarrow> bool" where
  "housekeeping Connect = True"
| "housekeeping (Start p) = True"
| "housekeeping (ClickInput b) = True"
| "housekeeping (PrintErr m) =
     (m = ''Exception connection to Bezi app.'' \<or> m = ''Attempting to launch exe.'')"
| "housekeeping e = False"

fun is_injection :: "event \<Rightarrow> bool" where
  "is_injection (SetText t) = True"
| "is_injection (TypeKeys k) = True"
| "is_injection e = False"

fun is_reading :: "event \<Rightarrow> bool" where
  "is_reading (Reading a) = True"
| "is_reading e = False"

definition noninjecting :: "event \<Rightarrow> bool" where
  "noninjecting e = (\<not> is_injection e)"

definition quiet :: "event \<Rightarrow> bool" where
  "quiet e = (\<not> is_injection e \<and> \<not> is_reading e)"

definition unread :: "event \<Rightarrow> bool" where
  "unread e = (\<not> is_reading e)"

text \<open>
  \<open>last_reading r evs\<close> is the most recent classification after the events \<open>evs\<close>,
  when it was \<open>r\<close> before them (\<open>None\<close>: no reading yet). \<open>inject_safe r evs\<close> says
  that every injection of input among \<open>evs\<close> (setting the text of a control, sending
  keys) happens while the most recent classification is \<open>INACTIVE\<close>.
\<close>

fun last_reading :: "activity option \<Rightarrow> event list \<Rightarrow> activity option" where
  "last_reading r [] = r"
| "last_reading r (Reading a # es) = last_reading (Some a) es"
| "last_reading r (e # es) = last_reading r es"

fun inject_safe :: "activity option \<Rightarrow> event list \<Rightarrow> bool" where
  "inject_safe r [] = True"
| "inject_safe r (Reading a # es) = inject_safe (Some a) es"
| "inject_safe r (SetText t # es) = (r = Some INACTIVE \<and> inject_safe r es)"
| "inject_safe r (TypeKeys k # es) = (r = Some INACTIVE \<and> inject_safe r es)"
| "inject_safe r (e # es) = inject_safe r es"

text \<open>
  The classifier in the words of the specification: the references are tested in the
  order BUSY, INACTIVE, READY at threshold 0.90, the first that matches gives the state,
  and no match gives UNKNOWN.
\<close>

definition classify_spec :: "image \<Rightarrow> image \<Rightarrow> image \<Rightarrow> image \<Rightarrow> activity" where
  "classify_spec busy inactive ready capture =
     (case find (\<lambda>(st, ref). images_match ref capture py_0_90)
             [(BUSY, busy), (INACTIVE, inactive), (READY, ready)] of
        Some (st, ref) \<Rightarrow> st
      | None \<Rightarrow> UNKNOWN)"

text \<open>
  The statements of the \<^verbatim>\<open>try\<close> block of \<^verbatim>\<open>run\<close> before the call of
  \<^verbatim>\<open>send_prompt\<close>: they end with one of the two early returns, or with \<open>None\<close> when
  the run goes on to the submission.
\<close>

definition run_setup :: "world \<Rightarrow> cli_args \<Rightarrow> (bool \<times> run_result) option act" where
  "run_setup w a =
     bnd (load_config w) (\<lambda>c.
     bnd (modify (\<lambda>s. s\<lparr>config := c\<rparr>)) (\<lambda>u.
     bnd (parse_arguments a) (\<lambda>parsed.
     bnd (find_windows w) (\<lambda>u.
     bnd (validate_arguments w) (\<lambda>valid.
     if \<not> valid then ret (Some (False, Message ''Invalid Args''))
     else
     bnd (getattr args AttributeError) (\<lambda>a'.
     if init a'
     then bnd (getattr config TypeError) (\<lambda>c'.
          bnd (save_config w c') (\<lambda>u.
          ret (Some (True, Message ''Initialization Complete''))))
     else
     bnd (new_thread w) (\<lambda>u.
     ret None)))))))"

text \<open>
  The state in which the script calls \<^verbatim>\<open>run\<close>: the object built and the arguments
  parsed.
\<close>

definition startup :: "world \<Rightarrow> cli_args \<Rightarrow> bridge" where
  "startup w a = snd (bnd (BeziBridge_init w) (\<lambda>u. parse_arguments a) blank)"

definition any_event :: "event \<Rightarrow> bool" where
  "any_event e = True"

text \<open>
  Example worlds. The three reference icons and the captures of the submit button are
  images of one colour; the window holds a text, the submit button and the prompt box;
  connecting succeeds and no dialog is open.
\<close>

definition icon_busy :: image where
  "icon_busy = solid 56 56 (200, 50, 50)"

definition icon_inactive :: image where
  "icon_inactive = solid 56 56 (90, 90, 90)"

definition icon_ready :: image where
  "icon_ready = solid 56 56 (40, 180, 70)"

definition ref_files :: "string \<Rightarrow> exn + image" where
  "ref_files name =
     (if name = ''ref_ready.png'' then Inr icon_inactive
      else if name = ''ref_ready_active.png'' then Inr icon_ready
      else if name = ''ref_busy.png'' then Inr icon_busy
      else Inl OSError)"

definition submit_button :: "image \<Rightarrow> control" where
  "submit_button img =
     \<lparr>ctl_type = Button, ctl_rectangle = Inr (56, 56), ctl_window_text = Inr [],
      ctl_capture = Inr img\<rparr>"

definition prompt_box :: control where
  "prompt_box =
     \<lparr>ctl_type = Edit, ctl_rectangle = Inr (640, 48), ctl_window_text = Inr [],
      ctl_capture = Inr (solid 640 48 (255, 255, 255))\<rparr>"

definition reply_text :: control where
  "reply_text =
     \<lparr>ctl_type = Text, ctl_rectangle = Inr (640, 20), ctl_window_text = Inr '' Done. '',
      ctl_capture = Inr (solid 640 20 (255, 255, 255))\<rparr>"

definition ui_world :: "(string \<Rightarrow> exn + image) \<Rightarrow> (nat \<Rightarrow> exn + control list) \<Rightarrow> world" where
  "ui_world files ds =
     \<lparr>image_files = files, config_on_disk = None, text_files = (\<lambda>p. None),
      connect = (\<lambda>t. Inr ()), start = (\<lambda>t p. Inl AppStartError), descendants = ds,
      set_focus = (\<lambda>t. Inr ()), type_keys = (\<lambda>t k. Inr ()),
      set_text = (\<lambda>t c m. Inr ()), click_input = (\<lambda>t b. Inl ElementNotFoundError),
      json_dump = (\<lambda>t. Inr ())\<rparr>"

definition idle_world :: world where
  "idle_world = ui_world ref_files (\<lambda>t. Inr [reply_text, submit_button icon_inactive, prompt_box])"

definition hello_args :: cli_args where
  "hello_args = \<lparr>prompt = Some ''Hello'', arg_bezi_path = None, init = False, debug = False\<rparr>"

definition empty_args :: cli_args where
  "empty_args = \<lparr>prompt = Some [], arg_bezi_path = None, init = False, debug = False\<rparr>"

text \<open>
  In \<open>polling_world\<close> the submit button shows the busy icon at the first two polls of
  \<open>send_prompt\<close> started from \<open>startup\<close>, the inactive icon at the third, the busy icon
  once more after the submission and the inactive icon from then on.
\<close>

definition polling_world :: world where
  "polling_world =
     ui_world ref_files
       (\<lambda>t. Inr [reply_text,
                 submit_button (if t < 22 \<or> (35 \<le> t \<and> t < 46) then icon_busy else icon_inactive),
                 prompt_box])"

definition init_args :: cli_args where
  "init_args = \<lparr>prompt = None, arg_bezi_path = None, init = True, debug = False\<rparr>"

text \<open>
  A reference that differs from the one-colour image of 20 pixels in one pixel: the two
  agree on 57 of 60 elements, above the threshold.
\<close>

definition near_inactive :: image where
  "near_inactive =
     \<lparr>img_width = 20, img_height = 1, img_data = (90, 90, 90) # replicate 19 (200, 50, 50)\<rparr>"

definition two_refs_state :: bridge where
  "two_refs_state =
     blank\<lparr>ready_icon_busy := Some (solid 20 1 (200, 50, 50)),
           ready_icon_inactive := Some near_inactive,
           ready_icon_active := Some (solid 20 1 (40, 180, 70))\<rparr>"

definition missing_refs_world :: world where
  "missing_refs_world =
     ui_world (\<lambda>name. Inl OSError)
       (\<lambda>t. Inr [reply_text, submit_button icon_inactive, prompt_box])"

definition no_button_world :: world where
  "no_button_world = ui_world ref_files (\<lambda>t. Inr [reply_text, prompt_box])"

definition no_edit_world :: world where
  "no_edit_world = ui_world ref_files (\<lambda>t. Inr [reply_text, submit_button icon_inactive])"

text \<open>
  The state in which \<^verbatim>\<open>run\<close> calls \<^verbatim>\<open>send_prompt\<close>, when it gets there.
\<close>

definition submission_state :: "world \<Rightarrow> cli_args \<Rightarrow> bridge" where
  "submission_state w a = snd (run_setup w a (snd (set_keep_awake True (startup w a))))"

section \<open>The fingerprint matcher\<close>

lemma round_half_even_div_exact: "0 < b \<Longrightarrow> round_half_even_div (b * q) b = q"
  by (simp add: round_half_even_div_def)

lemma float64_div_self: "0 < n \<Longrightarrow> float64_div n n = 1"
  by (simp add: float64_div_def round_half_even_div_exact)

lemma map2_eq_self: "map2 (\<lambda>x y. x = y) xs xs = replicate (length xs) True"
  by (induction xs) simp_all

lemma length_channels:
  "length (concat (map (\<lambda>(r, g, b). [r, g, b]) ps)) = 3 * length ps"
  by (induction ps) auto

lemma np_mean_all_true: "np_mean (replicate n True) = (if n = 0 then NaN else Fin 1)"
  by (simp add: np_mean_def float64_div_self)

lemma images_match_try_self:
  assumes "wf_image img"
  shows "images_match_try img img t
           = Inr (float_gt (if img_data img = [] then NaN else Fin 1) t)"
proof -
  obtain arr where arr: "np_array img = Inr arr"
    "length (elems arr) = 3 * length (img_data img)"
    using assms by (simp add: np_array_def wf_image_def length_channels)
  then show ?thesis
    by (simp add: images_match_try_def map2_eq_self np_mean_all_true)
qed

lemma wf_solid: "wf_image (solid wd ht p)"
  by (simp add: wf_image_def solid_def)

text \<open>
  C5. Two images whose dimensions differ never match, whatever the threshold, and for
  well-formed images the answer is the \<^verbatim>\<open>return False\<close> of the shape test, not the
  handler of an exception.
\<close>

theorem shape_mismatch_is_non_match:
  "(img_height a, img_width a) \<noteq> (img_height b, img_width b) \<Longrightarrow>
   images_match a b t = False \<and>
   (wf_image a \<and> wf_image b \<longrightarrow> images_match_try a b t = Inr False)"
  by (auto simp: images_match_def images_match_try_def np_array_def wf_image_def)

theorem shape_mismatch_is_non_match_witness:
  "(img_height (solid 56 56 (0, 0, 0)), img_width (solid 56 56 (0, 0, 0)))
     \<noteq> (img_height (solid 28 28 (0, 0, 0)), img_width (solid 28 28 (0, 0, 0))) \<and>
   images_match (solid 56 56 (0, 0, 0)) (solid 28 28 (0, 0, 0)) PosInf = False \<and>
   images_match_try (solid 56 56 (0, 0, 0)) (solid 28 28 (0, 0, 0)) PosInf = Inr False"
proof -
  have d: "(img_height (solid 56 56 (0, 0, 0)), img_width (solid 56 56 (0, 0, 0)))
             \<noteq> (img_height (solid 28 28 (0, 0, 0)), img_width (solid 28 28 (0, 0, 0)))"
    by (simp add: solid_def)
  show ?thesis
    using d shape_mismatch_is_non_match [OF d, of PosInf] by (simp add: wf_solid)
qed

text \<open>
  C6, as the code has it. A well-formed image with at least one pixel matches itself at
  every threshold below 1.0: all its elements are equal, the mean is exactly 1.0. An
  image without pixels does not: the mean of the empty comparison is NaN, and NaN
  exceeds no threshold.
\<close>

theorem empty_image_is_not_reflexive:
  "wf_image (solid 0 0 (0, 0, 0)) \<and> float_lt (Fin (1 / 2)) (Fin 1) \<and>
   \<not> images_match (solid 0 0 (0, 0, 0)) (solid 0 0 (0, 0, 0)) (Fin (1 / 2))"
  by (simp add: wf_solid float_lt_def images_match_def images_match_try_self)
     (simp add: solid_def)

theorem reflexive_below_one:
  "wf_image img \<Longrightarrow> 0 < img_width img \<Longrightarrow> 0 < img_height img \<Longrightarrow>
   float_lt t (Fin 1) \<Longrightarrow> images_match img img t"
  by (cases t) (auto simp: images_match_def images_match_try_self float_lt_def wf_image_def)

theorem reflexive_below_one_witness:
  "wf_image (solid 56 56 (7, 7, 7)) \<and> 0 < img_width (solid 56 56 (7, 7, 7)) \<and>
   0 < img_height (solid 56 56 (7, 7, 7)) \<and> float_lt py_0_90 (Fin 1) \<and>
   images_match (solid 56 56 (7, 7, 7)) (solid 56 56 (7, 7, 7)) py_0_90"
proof -
  have w: "wf_image (solid 56 56 (7, 7, 7))" by (rule wf_solid)
  have a: "0 < img_width (solid 56 56 (7, 7, 7))" by (simp add: solid_def)
  have b: "0 < img_height (solid 56 56 (7, 7, 7))" by (simp add: solid_def)
  have c: "float_lt py_0_90 (Fin 1)" by (simp add: float_lt_def py_0_90_def)
  show ?thesis using w a b c reflexive_below_one [OF w a b c] by simp
qed

text \<open>
  C10. The comparison with the threshold is strict: at threshold 1.0 no image matches
  itself, since the mean is at most 1.0 (or NaN).
\<close>

theorem threshold_one_never_met: "images_match img img (Fin 1) = False"
proof (cases "wf_image img")
  case True
  then show ?thesis by (simp add: images_match_def images_match_try_self)
next
  case False
  then show ?thesis
    by (simp add: images_match_def images_match_try_def np_array_def wf_image_def)
qed

section \<open>Traces of the actions\<close>

lemma emitsD: "emits P m \<Longrightarrow> m s = (r, s') \<Longrightarrow> \<exists>evs. trace s' = trace s @ evs \<and> list_all P evs"
  unfolding emits_def by (metis snd_conv)

lemma emits_ret: "emits P (ret x)"
  by (simp add: emits_def ret_def)

lemma emits_raise: "emits P (raise e)"
  by (simp add: emits_def raise_def)

lemma emits_py_exit: "emits P (py_exit k)"
  by (simp add: emits_def py_exit_def)

lemma emits_modify: "(\<And>s. trace (f s) = trace s) \<Longrightarrow> emits P (modify f)"
  by (simp add: emits_def modify_def)

lemma emits_emit: "P e \<Longrightarrow> emits P (emit e)"
  by (simp add: emits_def emit_def)

lemma emits_lift_exn: "emits P (lift_exn r)"
  by (simp add: emits_def lift_exn_def split: sum.splits)

lemma emits_ui_call: "P e \<Longrightarrow> emits P (ui_call e f)"
  by (simp add: emits_def ui_call_def lift_exn_def split: sum.splits)

lemma emits_getattr: "emits P (getattr f e)"
  by (simp add: emits_def getattr_def split: option.splits)

lemma emits_bnd: 
  assumes "emits P m" and "\<And>x. emits P (f x)" 
  shows "emits P (bnd m f)"
  unfolding emits_def
proof
  fix s
  obtain r s1 where ms: "m s = (r, s1)" by (cases "m s")
  from emitsD[OF assms(1) ms] obtain e1 where e1: "trace s1 = trace s @ e1" "list_all P e1" by blast
  show "\<exists>evs. trace (snd (bnd m f s)) = trace s @ evs \<and> list_all P evs"
  proof (cases r)
    case (Inl a)
    then show ?thesis using ms e1 by (simp add: bnd_def)
  next
    case (Inr x)
    obtain r2 s2 where fs: "f x s1 = (r2, s2)" by (cases "f x s1")
    from emitsD[OF assms(2) fs] obtain e2 where "trace s2 = trace s1 @ e2" "list_all P e2" by blast
    then show ?thesis using ms e1 Inr fs by (simp add: bnd_def)
  qed
qed

lemma emits_try_except:
  assumes "emits P m" and "\<And>e. emits P (h e)" 
  shows "emits P (try_except m h)"
  unfolding emits_def
proof
  fix s
  obtain r s1 where ms: "m s = (r, s1)" by (cases "m s")
  from emitsD[OF assms(1) ms] obtain e1 where e1: "trace s1 = trace s @ e1" "list_all P e1" by blast
  show "\<exists>evs. trace (snd (try_except m h s)) = trace s @ evs \<and> list_all P evs"
  proof (cases "\<exists>e. r = Inl (Raise e)")
    case True
    then obtain e where r: "r = Inl (Raise e)" by blast
    obtain r2 s2 where fs: "h e s1 = (r2, s2)" by (cases "h e s1")
    from emitsD[OF assms(2) fs] obtain e2 where "trace s2 = trace s1 @ e2" "list_all P e2" by blast
    then show ?thesis using ms e1 r fs by (simp add: try_except_def)
  next
    case False
    then have "try_except m h s = (r, s1)" using ms
      by (auto simp: try_except_def split: sum.splits abort.splits)
    then show ?thesis using e1 by simp
  qed
qed

lemma emits_try_except_bare:
  assumes "emits P m" and "emits P h" 
  shows "emits P (try_except_bare m h)"
  unfolding emits_def
proof
  fix s
  obtain r s1 where ms: "m s = (r, s1)" by (cases "m s")
  from emitsD[OF assms(1) ms] obtain e1 where e1: "trace s1 = trace s @ e1" "list_all P e1" by blast
  obtain r2 s2 where fs: "h s1 = (r2, s2)" by (cases "h s1")
  from emitsD[OF assms(2) fs] obtain e2 where e2: "trace s2 = trace s1 @ e2" "list_all P e2" by blast
  have "try_except_bare m h s = (r, s1) \<or> try_except_bare m h s = (r2, s2)"
    using ms fs by (auto simp: try_except_bare_def split: sum.splits abort.splits)
  then show "\<exists>evs. trace (snd (try_except_bare m h s)) = trace s @ evs \<and> list_all P evs"
    using e1 e2 by auto
qed

lemma emits_try_finally:
  assumes "emits P m" and "emits P c" 
  shows "emits P (try_finally m c)"
  unfolding emits_def
proof
  fix s
  obtain r s1 where ms: "m s = (r, s1)" by (cases "m s")
  from emitsD[OF assms(1) ms] obtain e1 where e1: "trace s1 = trace s @ e1" "list_all P e1" by blast
  obtain r2 s2 where fs: "c s1 = (r2, s2)" by (cases "c s1")
  from emitsD[OF assms(2) fs] obtain e2 where e2: "trace s2 = trace s1 @ e2" "list_all P e2" by blast
  have "snd (try_finally m c s) = s1 \<or> snd (try_finally m c s) = s2"
    using ms fs by (auto simp: try_finally_def split: sum.splits abort.splits)
  then show "\<exists>evs. trace (snd (try_finally m c s)) = trace s @ evs \<and> list_all P evs"
    using e1 e2 by auto
qed

lemma emits_if: "(c \<Longrightarrow> emits P a) \<Longrightarrow> (\<not> c \<Longrightarrow> emits P b) \<Longrightarrow> emits P (if c then a else b)"
  by simp

lemma emits_mono: "emits P m \<Longrightarrow> (\<And>e. P e \<Longrightarrow> Q e) \<Longrightarrow> emits Q m"
  unfolding emits_def by (metis (mono_tags, lifting) list.pred_mono_strong)

lemmas emits_intros = emits_ret emits_raise emits_py_exit emits_modify emits_emit emits_lift_exn
  emits_ui_call emits_getattr emits_bnd emits_try_except emits_try_except_bare emits_try_finally emits_if

lemma find_windows_emits: "emits housekeeping (find_windows w)"
  unfolding find_windows_def print_err_def
  by (intro emits_intros) simp_all

lemma click_button_by_name_emits: "emits housekeeping (click_button_by_name w b)"
  unfolding click_button_by_name_def
  by (intro emits_intros) simp_all

lemma close_dialogs_emits: "emits housekeeping (close_dialogs w)"
  unfolding close_dialogs_def
  by (intro emits_intros find_windows_emits click_button_by_name_emits)

lemma inject_safe_append:
  "inject_safe r (xs @ ys) = (inject_safe r xs \<and> inject_safe (last_reading r xs) ys)"
  by (induction r xs rule: inject_safe.induct) auto

lemma last_reading_append:
  "last_reading r (xs @ ys) = last_reading (last_reading r xs) ys"
  by (induction r xs rule: last_reading.induct) auto

lemma noninjecting_safe: "list_all noninjecting xs \<Longrightarrow> inject_safe r xs"
  by (induction r xs rule: inject_safe.induct) (auto simp: noninjecting_def)

lemma quiet_last_reading: "list_all quiet xs \<Longrightarrow> last_reading r xs = r"
  by (induction r xs rule: last_reading.induct) (auto simp: quiet_def)

lemma unread_last_reading: "list_all unread xs \<Longrightarrow> last_reading r xs = r"
  by (induction r xs rule: last_reading.induct) (auto simp: unread_def)

lemma unread_safe: "list_all unread xs \<Longrightarrow> inject_safe (Some INACTIVE) xs"
  by (induction "Some INACTIVE" xs rule: inject_safe.induct) (auto simp: unread_def)

lemma housekeeping_quiet: "housekeeping e \<Longrightarrow> quiet e"
  by (cases e) (auto simp: quiet_def)

lemma quiet_noninjecting: "quiet e \<Longrightarrow> noninjecting e"
  by (simp add: quiet_def noninjecting_def)

lemma quiet_unread: "quiet e \<Longrightarrow> unread e"
  by (simp add: quiet_def unread_def)

lemma bndE:
  assumes "bnd m f s = (r, s')"
  obtains (abort) a where "m s = (Inl a, s')" "r = Inl a"
        | (continue) x s1 where "m s = (Inr x, s1)" "f x s1 = (r, s')"
  using assms by (auto simp: bnd_def split: prod.splits sum.splits)

lemma find_windows_quiet: "emits quiet (find_windows w)"
  by (rule emits_mono[OF find_windows_emits housekeeping_quiet])

lemma close_dialogs_quiet: "emits quiet (close_dialogs w)"
  by (rule emits_mono[OF close_dialogs_emits housekeeping_quiet])

lemma window_descendants_quiet: "emits quiet (window_descendants w ty)"
  unfolding window_descendants_def
  by (intro emits_intros) (simp_all add: quiet_def)

lemma find_submit_button_quiet: "emits quiet (find_submit_button w)"
  unfolding find_submit_button_def
  by (intro emits_intros window_descendants_quiet)

lemma get_button_state_quiet: "emits quiet (get_button_state b)"
  unfolding get_button_state_def
  by (intro emits_intros) (simp_all add: quiet_def)

lemma get_bezi_state_trace:
  assumes "get_bezi_state w s = (r, s')"
  shows "\<exists>evs. trace s' = trace s @ evs \<and> list_all noninjecting evs \<and>
           (\<forall>st. r = Inr st \<longrightarrow> last_reading l evs = Some st)"
proof -
  from assms[unfolded get_bezi_state_def] show ?thesis
  proof (cases rule: bndE)
    case (abort a)
    from emitsD[OF find_windows_quiet abort(1)] show ?thesis
      using abort(2) quiet_noninjecting by (auto simp: list_all_iff)
  next
    case (continue u s1)
    from emitsD[OF find_windows_quiet continue(1)]
    obtain e1 where e1: "trace s1 = trace s @ e1" "list_all quiet e1" by blast
    from continue(2) show ?thesis
    proof (cases rule: bndE)
      case (abort a)
      from emitsD[OF find_submit_button_quiet abort(1)] show ?thesis
        using e1 abort(2) quiet_noninjecting by (auto simp: list_all_iff)
    next
      case (continue button s2)
      from emitsD[OF find_submit_button_quiet continue(1)]
      obtain e2 where e2: "trace s2 = trace s1 @ e2" "list_all quiet e2" by blast
      show ?thesis
      proof (cases button)
        case None
        with continue(2) have "r = Inl (Exit 1)"
          "trace s' = trace s2 @ [PrintErr ''unable to find submit button'']"
          by (auto simp: bnd_def print_err_def emit_def py_exit_def)
        then show ?thesis using e1 e2 quiet_noninjecting
          by (auto simp: list_all_iff noninjecting_def)
      next
        case (Some b)
        with continue(2)
        have "bnd (get_button_state b) (\<lambda>state. bnd (emit (Reading state)) (\<lambda>u. ret state)) s2
                = (r, s')"
          by simp
        then show ?thesis
        proof (cases rule: bndE)
          case (abort a)
          from emitsD[OF get_button_state_quiet abort(1)] show ?thesis
            using e1 e2 abort(2) quiet_noninjecting by (auto simp: list_all_iff)
        next
          case (continue st s3)
          from emitsD[OF get_button_state_quiet continue(1)]
          obtain e3 where e3: "trace s3 = trace s2 @ e3" "list_all quiet e3" by blast
          from continue(2) have r: "r = Inr st" "trace s' = trace s3 @ [Reading st]"
            by (auto simp: bnd_def emit_def ret_def)
          have "last_reading l (e1 @ e2 @ e3 @ [Reading st]) = Some st"
            using e1 e2 e3 by (simp add: last_reading_append quiet_last_reading)
          then show ?thesis using r e1 e2 e3 quiet_noninjecting
            by (intro exI[of _ "e1 @ e2 @ e3 @ [Reading st]"])
               (auto simp: list_all_iff noninjecting_def)
        qed
      qed
    qed
  qed
qed

lemma wait_until_inactive_trace:
  "wait_until_inactive w n s = (r, s') \<Longrightarrow>
   \<exists>evs. trace s' = trace s @ evs \<and> list_all noninjecting evs \<and>
         (r = Inr () \<longrightarrow> last_reading l evs = Some INACTIVE)"
proof (induction n arbitrary: s l)
  case 0
  then show ?case by auto
next
  case (Suc n)
  from Suc.prems[simplified] show ?case
  proof (cases rule: bndE)
    case (abort a)
    from get_bezi_state_trace[OF abort(1), of l] show ?thesis using abort(2) by auto
  next
    case (continue st s1)
    from get_bezi_state_trace[OF continue(1), of l]
    obtain e1 where e1: "trace s1 = trace s @ e1" "list_all noninjecting e1"
      "last_reading l e1 = Some st" by auto
    show ?thesis
    proof (cases "st = INACTIVE")
      case True
      with continue(2) have "r = Inr ()" "s' = s1" by (auto simp: ret_def)
      then show ?thesis using e1 True by auto
    next
      case False
      with continue(2)
      have "bnd (close_dialogs w) (\<lambda>u. bnd (sleep 1) (\<lambda>u. wait_until_inactive w n)) s1 = (r, s')"
        by auto
      then show ?thesis
      proof (cases rule: bndE)
        case (abort a)
        from emitsD[OF close_dialogs_quiet abort(1)] show ?thesis
          using e1 abort(2) quiet_noninjecting by (auto simp: list_all_iff)
      next
        case (continue u s2)
        from emitsD[OF close_dialogs_quiet continue(1)]
        obtain e2 where e2: "trace s2 = trace s1 @ e2" "list_all quiet e2" by blast
        from continue(2) have w: "wait_until_inactive w n (s2\<lparr>trace := trace s2 @ [Sleep 1]\<rparr>) = (r, s')"
          by (simp add: bnd_def sleep_def emit_def)
        from Suc.IH[OF w, of "last_reading l (e1 @ e2 @ [Sleep 1])"]
        obtain e3 where e3: "trace s' = trace s2 @ [Sleep 1] @ e3" "list_all noninjecting e3"
          "r = Inr () \<longrightarrow> last_reading (last_reading l (e1 @ e2 @ [Sleep 1])) e3 = Some INACTIVE"
          by auto
        show ?thesis using e1 e2 e3 quiet_noninjecting
          by (intro exI[of _ "e1 @ e2 @ [Sleep 1] @ e3"])
             (auto simp: list_all_iff noninjecting_def last_reading_append)
      qed
    qed
  qed
qed

lemma emits_case_option:
  "emits P a \<Longrightarrow> (\<And>x. emits P (f x)) \<Longrightarrow> emits P (case v of None \<Rightarrow> a | Some x \<Rightarrow> f x)"
  by (cases v) simp_all

lemma emits_case_prod:
  "(\<And>x y. emits P (f x y)) \<Longrightarrow> emits P (case v of (x, y) \<Rightarrow> f x y)"
  by (cases v) simp

lemma emits_state_dependent:
  "(\<And>s. emits P (f s)) \<Longrightarrow> emits P (\<lambda>s. f s s)"
  unfolding emits_def by blast

lemmas emits_more = emits_intros emits_case_option emits_case_prod

lemma set_keep_awake_emits: "emits any_event (set_keep_awake b)"
  unfolding set_keep_awake_def Let_def
  by (intro emits_more) (simp_all add: any_event_def)

lemma find_windows_any: "emits any_event (find_windows w)"
  by (rule emits_mono[OF find_windows_emits]) (simp add: any_event_def)

lemma close_dialogs_any: "emits any_event (close_dialogs w)"
  by (rule emits_mono[OF close_dialogs_emits]) (simp add: any_event_def)

lemma window_descendants_any: "emits any_event (window_descendants w ty)"
  by (rule emits_mono[OF window_descendants_quiet]) (simp add: any_event_def)

lemma get_bezi_state_any: "emits any_event (get_bezi_state w)"
  unfolding get_bezi_state_def print_err_def
  by (intro emits_more find_windows_any emits_mono[OF find_submit_button_quiet]
      emits_mono[OF get_button_state_quiet]) (simp_all add: any_event_def)

lemma wait_until_inactive_any: "emits any_event (wait_until_inactive w n)"
proof (induction n)
  case 0
  show ?case by (simp add: emits_def)
next
  case (Suc n)
  show ?case
    unfolding wait_until_inactive.simps sleep_def
    by (intro emits_more get_bezi_state_any close_dialogs_any Suc) (simp_all add: any_event_def)
qed

lemma send_prompt_any: "emits any_event (send_prompt w n message)"
  unfolding send_prompt_def print_err_def sleep_def
  by (intro emits_more wait_until_inactive_any close_dialogs_any find_windows_any
      window_descendants_any) (simp_all add: any_event_def)

lemma new_thread_any: "emits any_event (new_thread w)"
  unfolding new_thread_def sleep_def
  by (intro emits_more close_dialogs_any find_windows_any) (simp_all add: any_event_def)

lemma load_config_any: "emits any_event (load_config w)"
  unfolding load_config_def
  by (intro emits_more) (simp_all add: any_event_def)

lemma validate_arguments_any: "emits any_event (validate_arguments w)"
  unfolding validate_arguments_def Let_def
  by (intro emits_more) (simp_all add: any_event_def)

lemma parse_arguments_any: "emits any_event (parse_arguments a)"
  unfolding parse_arguments_def
  by (intro emits_more) (simp_all add: any_event_def)

lemma send_bezi_prompt_any: "emits any_event (\<lambda>s. send_prompt w n (bezi_prompt s) s)"
  by (rule emits_state_dependent[where f = "\<lambda>s. send_prompt w n (bezi_prompt s)"])
     (rule send_prompt_any)

lemma run_try_any: "emits any_event (run_try w n a)"
  unfolding run_try_def save_config_def
  by (intro emits_more send_bezi_prompt_any new_thread_any load_config_any
      validate_arguments_any parse_arguments_any find_windows_any) (simp_all add: any_event_def)

lemma emitsI:
  assumes "\<And>s r s'. m s = (r, s') \<Longrightarrow> \<exists>evs. trace s' = trace s @ evs \<and> list_all P evs"
  shows "emits P m"
  unfolding emits_def
proof
  fix s
  obtain r s' where "m s = (r, s')" by (cases "m s")
  with assms[OF this] show "\<exists>evs. trace (snd (m s)) = trace s @ evs \<and> list_all P evs" by simp
qed

lemma new_events_append: "trace s' = trace s @ evs \<Longrightarrow> new_events s s' = evs"
  by (simp add: new_events_def)

lemma wait_until_inactive_noninjecting: "emits noninjecting (wait_until_inactive w n)"
  by (rule emitsI) (use wait_until_inactive_trace in blast)

lemma submit_block_unread:
  "emits unread
     (try_except
        (bnd (find_windows w) (\<lambda>u.
         bnd (window_descendants w (Some Edit)) (\<lambda>edits.
         bnd (lift_exn (py_last edits)) (\<lambda>prompt_box.
         bnd (ui_call (SetText ptext) (\<lambda>t. set_text w t prompt_box ptext)) (\<lambda>u.
         bnd (sleep 1) (\<lambda>u.
         bnd (ui_call (TypeKeys ''{ENTER}'') (\<lambda>t. type_keys w t ''{ENTER}'')) (\<lambda>u.
         bnd (sleep 2) (\<lambda>u.
         ret True))))))))
        (\<lambda>e. bnd (print_err ''unable to find prompt box'') (\<lambda>u. ret False)))"
  unfolding sleep_def print_err_def
  by (intro emits_more emits_mono[OF find_windows_quiet quiet_unread]
      emits_mono[OF window_descendants_quiet quiet_unread]) (simp_all add: unread_def)

lemma harvest_noninjecting:
  "emits noninjecting
     (bnd (find_windows w) (\<lambda>u.
      bnd (wait_until_inactive w n) (\<lambda>u.
      bnd (close_dialogs w) (\<lambda>u.
      bnd (find_windows w) (\<lambda>u.
      bnd (window_descendants w (Some Text)) (\<lambda>elements.
      lift_exn (map_sum id Texts (window_texts elements))))))))"
  by (intro emits_more emits_mono[OF find_windows_quiet quiet_noninjecting]
      emits_mono[OF window_descendants_quiet quiet_noninjecting]
      emits_mono[OF close_dialogs_quiet quiet_noninjecting] wait_until_inactive_noninjecting)

lemma send_prompt_trace:
  assumes "send_prompt w n message s = (res, s')"
  shows "\<exists>evs. trace s' = trace s @ evs \<and> inject_safe r evs"
proof (cases "truthy message")
  case False
  with assms have "s' = s" by (simp add: send_prompt_def raise_def)
  then show ?thesis by simp
next
  case True
  then obtain ptext where msg: "message = Some ptext" by (cases message) (auto simp: truthy_def)
  define block where "block =
     try_except
        (bnd (find_windows w) (\<lambda>u.
         bnd (window_descendants w (Some Edit)) (\<lambda>edits.
         bnd (lift_exn (py_last edits)) (\<lambda>prompt_box.
         bnd (ui_call (SetText ptext) (\<lambda>t. set_text w t prompt_box ptext)) (\<lambda>u.
         bnd (sleep 1) (\<lambda>u.
         bnd (ui_call (TypeKeys ''{ENTER}'') (\<lambda>t. type_keys w t ''{ENTER}'')) (\<lambda>u.
         bnd (sleep 2) (\<lambda>u.
         ret True))))))))
        (\<lambda>e. bnd (print_err ''unable to find prompt box'') (\<lambda>u. ret False))"
  define harvest where "harvest =
     bnd (find_windows w) (\<lambda>u.
      bnd (wait_until_inactive w n) (\<lambda>u.
      bnd (close_dialogs w) (\<lambda>u.
      bnd (find_windows w) (\<lambda>u.
      bnd (window_descendants w (Some Text)) (\<lambda>elements.
      lift_exn (map_sum id Texts (window_texts elements)))))))"
  have block: "emits unread block"
    unfolding block_def by (rule submit_block_unread)
  have harvest: "emits noninjecting harvest"
    unfolding harvest_def by (rule harvest_noninjecting)
  have "send_prompt w n message =
     bnd (wait_until_inactive w n) (\<lambda>u.
     bnd (close_dialogs w) (\<lambda>u.
     bnd block (\<lambda>submitted. if \<not> submitted then ret ReturnedFalse else harvest)))"
    using True msg unfolding send_prompt_def block_def harvest_def by simp
  with assms have "bnd (wait_until_inactive w n) (\<lambda>u.
     bnd (close_dialogs w) (\<lambda>u.
     bnd block (\<lambda>submitted. if \<not> submitted then ret ReturnedFalse else harvest))) s = (res, s')"
    by simp
  then show ?thesis
  proof (cases rule: bndE)
    case (abort a)
    from wait_until_inactive_trace[OF abort(1), of r] show ?thesis
      using noninjecting_safe by blast
  next
    case (continue u s1)
    from wait_until_inactive_trace[OF continue(1), of r]
    obtain e1 where e1: "trace s1 = trace s @ e1" "list_all noninjecting e1"
      "last_reading r e1 = Some INACTIVE" by auto
    have safe1: "inject_safe r e1" using e1(2) by (rule noninjecting_safe)
    from continue(2) show ?thesis
    proof (cases rule: bndE)
      case (abort a)
      from emitsD[OF close_dialogs_quiet abort(1)]
      obtain e2 where e2: "trace s' = trace s1 @ e2" "list_all quiet e2" by blast
      then have "list_all noninjecting e2" using quiet_noninjecting by (auto simp: list_all_iff)
      then have "inject_safe (Some INACTIVE) e2" by (rule noninjecting_safe)
      then show ?thesis using e1 e2 safe1
        by (intro exI[of _ "e1 @ e2"]) (simp add: inject_safe_append)
    next
      case (continue u2 s2)
      from emitsD[OF close_dialogs_quiet continue(1)]
      obtain e2 where e2: "trace s2 = trace s1 @ e2" "list_all quiet e2" by blast
      then have "list_all noninjecting e2" using quiet_noninjecting by (auto simp: list_all_iff)
      then have safe2: "inject_safe (Some INACTIVE) e2" by (rule noninjecting_safe)
      have last2: "last_reading (Some INACTIVE) e2 = Some INACTIVE"
        using e2(2) by (rule quiet_last_reading)
      from continue(2) show ?thesis
      proof (cases rule: bndE)
        case (abort a)
        from emitsD[OF block abort(1)]
        obtain e3 where e3: "trace s' = trace s2 @ e3" "list_all unread e3" by blast
        then have "inject_safe (Some INACTIVE) e3" using unread_safe by blast
        then show ?thesis using e1 e2 e3 safe1 safe2 last2
          by (intro exI[of _ "e1 @ e2 @ e3"]) (simp add: inject_safe_append)
      next
        case (continue submitted s3)
        from emitsD[OF block continue(1)]
        obtain e3 where e3: "trace s3 = trace s2 @ e3" "list_all unread e3" by blast
        then have safe3: "inject_safe (Some INACTIVE) e3" using unread_safe by blast
        have "\<exists>e4. trace s' = trace s3 @ e4 \<and> list_all noninjecting e4"
        proof (cases submitted)
          case True
          with continue(2) have "harvest s3 = (res, s')" by simp
          from emitsD[OF harvest this] show ?thesis .
        next
          case False
          with continue(2) have "s' = s3" by (simp add: ret_def)
          then show ?thesis by simp
        qed
        then obtain e4 where e4: "trace s' = trace s3 @ e4" "list_all noninjecting e4" by blast
        then have "inject_safe (last_reading (Some INACTIVE) e3) e4"
          using noninjecting_safe by blast
        then show ?thesis using e1 e2 e3 e4 safe1 safe2 safe3 last2
          by (intro exI[of _ "e1 @ e2 @ e3 @ e4"]) (simp add: inject_safe_append)
      qed
    qed
  qed
qed


section \<open>Evaluation on the example worlds\<close>

lemma channels_replicate:
  "concat (map (\<lambda>(r, g, b). [r, g, b]) (replicate n (r, g, b))) = concat (replicate n [r, g, b])"
  by (induction n) simp_all

lemma map2_distinct:
  "r1 \<noteq> r2 \<Longrightarrow> g1 \<noteq> g2 \<Longrightarrow> b1 \<noteq> b2 \<Longrightarrow>
   filter (\<lambda>b. b)
     (map2 (\<lambda>x y. x = y) (concat (replicate n [r1, g1, b1])) (concat (replicate n [r2, g2, b2])))
     = []"
  by (induction n) simp_all

lemma images_match_solid_distinct:
  "r1 \<noteq> r2 \<Longrightarrow> g1 \<noteq> g2 \<Longrightarrow> b1 \<noteq> b2 \<Longrightarrow>
   images_match (solid wd ht (r1, g1, b1)) (solid wd ht (r2, g2, b2)) py_0_90 = False"
  by (simp add: images_match_def images_match_try_def np_array_def solid_def
      channels_replicate map2_distinct np_mean_def float64_div_def py_0_90_def)

lemma images_match_solid_same:
  assumes "0 < wd" and "0 < ht"
  shows "images_match (solid wd ht p) (solid wd ht p) py_0_90 = True"
proof -
  have "img_data (solid wd ht p) \<noteq> []"
    using assms by (simp add: solid_def)
  then show ?thesis
    by (simp add: images_match_def images_match_try_self [OF wf_solid] py_0_90_def)
qed

lemma icons_match [simp]:
  "images_match icon_busy icon_busy py_0_90"
  "images_match icon_inactive icon_inactive py_0_90"
  "images_match icon_ready icon_ready py_0_90"
  "\<not> images_match icon_busy icon_inactive py_0_90"
  "\<not> images_match icon_busy icon_ready py_0_90"
  "\<not> images_match icon_inactive icon_busy py_0_90"
  "\<not> images_match icon_inactive icon_ready py_0_90"
  "\<not> images_match icon_ready icon_busy py_0_90"
  "\<not> images_match icon_ready icon_inactive py_0_90"
  by (simp_all add: icon_busy_def icon_inactive_def icon_ready_def images_match_solid_same
      images_match_solid_distinct)

lemmas act_defs = ret_def bnd_def raise_def py_exit_def modify_def emit_def lift_exn_def
  now_def ui_call_def getattr_def try_except_def try_except_bare_def try_finally_def
  print_err_def sleep_def truthy_def py_or_def Let_def
  ES_CONTINUOUS_def ES_SYSTEM_REQUIRED_def ES_DISPLAY_REQUIRED_def

lemmas method_defs = image_open_def BeziBridge_init_def set_keep_awake_def find_windows_def
  window_descendants_def find_submit_button_def get_button_state_def get_bezi_state_def
  click_button_by_name_def close_dialogs_def new_thread_def send_prompt_def load_config_def
  save_config_def parse_arguments_def validate_arguments_def prompt_file_def run_try_def
  run_def script_def main_def blank_def py_last_def

lemmas world_defs = ui_world_def idle_world_def ref_files_def submit_button_def prompt_box_def
  reply_text_def hello_args_def empty_args_def bezi_submit_btn_width_def
  bezi_submit_btn_height_def strip_def is_space_def


lemma bit_length_57_60: "bit_length 57 = 6" "bit_length 60 = 6"
  by (simp_all add: bit_length.simps)

lemma float64_div_57_60_eq: "float64_div 57 60 = 8556839292003942 / 9007199254740992"
  by (simp add: float64_div_def round_half_even_div_def bit_length_57_60 Let_def)

lemma length_concat_replicate: "length (concat (replicate n xs)) = n * length xs"
  by (induction n) simp_all

lemma near_inactive_matches:
  "images_match near_inactive (solid 20 1 (200, 50, 50)) py_0_90"
proof -
  have r: "replicate 20 (200, 50, 50) = (200, 50, 50) # replicate 19 (200 :: 8 word, 50 :: 8 word, 50 :: 8 word)"
    using replicate_Suc [of 19 "(200 :: 8 word, 50 :: 8 word, 50 :: 8 word)"] by simp
  have a: "np_array near_inactive =
        Inr \<lparr>shape = [1, 20, 3], elems = [90, 90, 90] @ concat (replicate 19 [200, 50, 50])\<rparr>"
    by (simp add: np_array_def near_inactive_def channels_replicate)
  have b: "np_array (solid 20 1 (200, 50, 50)) =
        Inr \<lparr>shape = [1, 20, 3], elems = [200, 50, 50] @ concat (replicate 19 [200, 50, 50])\<rparr>"
    by (simp add: np_array_def solid_def r channels_replicate)
  have c: "map2 (\<lambda>x y. x = y) ([90, 90, 90] @ concat (replicate 19 [200, 50, 50 :: 8 word]))
             ([200, 50, 50] @ concat (replicate 19 [200, 50, 50]))
           = [False, False, False] @ replicate 57 True"
    by (simp add: map2_eq_self length_concat_replicate)
  show ?thesis
    unfolding images_match_def images_match_try_def a b
    by (simp only: c sum.case ndarray.simps if_False simp_thms Let_def)
       (simp add: np_mean_def py_0_90_def float64_div_57_60_eq)
qed

lemma wait_until_inactive_step:
  "wait_until_inactive w (Suc n) s =
     bnd (get_bezi_state w) (\<lambda>state.
       if INACTIVE \<noteq> state
       then bnd (close_dialogs w) (\<lambda>u. bnd (sleep 1) (\<lambda>u. wait_until_inactive w n))
       else ret ()) s"
  by simp

lemma wait_until_inactive_stop: "wait_until_inactive w 0 s = (Inl OutOfFuel, s)"
  by simp

lemmas eval_defs = act_defs method_defs world_defs polling_world_def init_args_def startup_def wait_until_inactive_step
  wait_until_inactive_stop new_events_def missing_refs_world_def

section \<open>The prompt submission protocol\<close>

text \<open>
  C1. In every execution of \<open>send_prompt\<close>, from any state, in any world and for any
  bound on the polling (so also in every prefix of an execution that polls forever),
  each injection of input (the text set in the edit control, the keys sent) happens
  while the most recent value returned by \<open>get_bezi_state\<close> is \<open>INACTIVE\<close>, whatever
  the classification was before the call (\<open>r\<close>; \<open>None\<close> when there was none).
\<close>

theorem injection_only_after_inactive:
  "inject_safe r (new_events s (snd (send_prompt w n message s)))"
proof -
  obtain res s' where sp: "send_prompt w n message s = (res, s')"
    by (cases "send_prompt w n message s")
  from send_prompt_trace[OF sp, of r] show ?thesis
    using sp by (auto simp: new_events_append)
qed

theorem injection_only_after_inactive_witness:
  "inject_safe None
     (new_events (startup polling_world hello_args)
        (snd (send_prompt polling_world (Suc (Suc (Suc 0))) (Some ''Hello'')
               (startup polling_world hello_args)))) \<and>
   new_events (startup polling_world hello_args)
     (snd (send_prompt polling_world (Suc (Suc (Suc 0))) (Some ''Hello'')
            (startup polling_world hello_args))) =
    [Connect, Descendants, CaptureAsImage, Reading BUSY,
     ClickInput ''Continue'', Connect, ClickInput ''Keep All'', Connect,
     Sleep 1, Connect, Descendants, CaptureAsImage, Reading BUSY,
     ClickInput ''Continue'', Connect, ClickInput ''Keep All'', Connect,
     Sleep 1, Connect, Descendants, CaptureAsImage, Reading INACTIVE,
     ClickInput ''Continue'', Connect, ClickInput ''Keep All'', Connect,
     Connect, Descendants, SetText ''Hello'', Sleep 1,
     TypeKeys ''{ENTER}'', Sleep 2, Connect, Connect, Descendants,
     CaptureAsImage, Reading BUSY, ClickInput ''Continue'', Connect,
     ClickInput ''Keep All'', Connect, Sleep 1, Connect, Descendants,
     CaptureAsImage, Reading INACTIVE, ClickInput ''Continue'', Connect,
     ClickInput ''Keep All'', Connect, Connect, Descendants]"
  using injection_only_after_inactive [of None "startup polling_world hello_args"
      polling_world "Suc (Suc (Suc 0))" "Some ''Hello''"]
  by (simp del: wait_until_inactive.simps add: eval_defs)

section \<open>The classifier\<close>

text \<open>
  C4. With the three references loaded, \<open>get_button_state\<close> returns the state of the
  first reference, in the order BUSY, INACTIVE, READY, that matches the capture at
  threshold 0.90, and UNKNOWN when none does; a capture that matches the BUSY reference
  is classified BUSY whatever else it matches.
\<close>

theorem classifier_priority:
  assumes "ready_icon_busy s = Some busy" and "ready_icon_inactive s = Some inactive"
    and "ready_icon_active s = Some ready" and "ctl_capture btn = Inr capture"
  shows "fst (get_button_state btn s) = Inr (classify_spec busy inactive ready capture) \<and>
         (images_match busy capture py_0_90 \<longrightarrow> fst (get_button_state btn s) = Inr BUSY) \<and>
         (\<not> images_match busy capture py_0_90 \<and> \<not> images_match inactive capture py_0_90 \<and>
          \<not> images_match ready capture py_0_90 \<longrightarrow> fst (get_button_state btn s) = Inr UNKNOWN)"
  using assms
  by (simp add: get_button_state_def classify_spec_def bnd_def emit_def lift_exn_def
      getattr_def ret_def)

theorem classifier_priority_witness:
  "ready_icon_busy two_refs_state = Some (solid 20 1 (200, 50, 50)) \<and>
   ready_icon_inactive two_refs_state = Some near_inactive \<and>
   ready_icon_active two_refs_state = Some (solid 20 1 (40, 180, 70)) \<and>
   ctl_capture (submit_button (solid 20 1 (200, 50, 50))) = Inr (solid 20 1 (200, 50, 50)) \<and>
   images_match (solid 20 1 (200, 50, 50)) (solid 20 1 (200, 50, 50)) py_0_90 \<and>
   images_match near_inactive (solid 20 1 (200, 50, 50)) py_0_90 \<and>
   fst (get_button_state (submit_button (solid 20 1 (200, 50, 50))) two_refs_state) = Inr BUSY \<and>
   classify_spec (solid 20 1 (200, 50, 50)) near_inactive (solid 20 1 (40, 180, 70))
     (solid 20 1 (200, 50, 50)) = BUSY"
proof -
  have a: "ready_icon_busy two_refs_state = Some (solid 20 1 (200, 50, 50))"
    and b: "ready_icon_inactive two_refs_state = Some near_inactive"
    and c: "ready_icon_active two_refs_state = Some (solid 20 1 (40, 180, 70))"
    by (simp_all add: two_refs_state_def)
  have d: "ctl_capture (submit_button (solid 20 1 (200, 50, 50)))
             = Inr (solid 20 1 (200, 50, 50))"
    by (simp add: submit_button_def)
  have m: "images_match (solid 20 1 (200, 50, 50)) (solid 20 1 (200, 50, 50)) py_0_90"
    by (simp add: images_match_solid_same)
  show ?thesis
    using a b c d m near_inactive_matches classifier_priority [OF a b c d]
    by (simp add: classify_spec_def)
qed

lemma unloaded_reference_raises:
  "ready_icon_busy s = None \<Longrightarrow> ctl_capture b = Inr img \<Longrightarrow>
   fst (get_button_state b s) = Inl (Raise AttributeError)"
  by (simp add: get_button_state_def bnd_def emit_def lift_exn_def getattr_def)

text \<open>
  C7, at the failing input: none of the three reference files can be opened.
  \<^verbatim>\<open>__init__\<close> prints the failure and returns, leaving \<open>ready_icon_busy\<close>
  unassigned; the first classification then raises \<open>AttributeError\<close> where the claim
  promises UNKNOWN, and the script ends with a traceback and exit status 1.
\<close>

theorem missing_references_raise:
  "fst (BeziBridge_init missing_refs_world blank) = Inr () \<and>
   trace (snd (BeziBridge_init missing_refs_world blank))
     = [OpenImage ''ref_ready.png'', PrintErr ''Error loading reference images''] \<and>
   fst (get_button_state (submit_button icon_inactive)
          (snd (BeziBridge_init missing_refs_world blank))) = Inl (Raise AttributeError) \<and>
   main missing_refs_world (Suc 0) hello_args =
     (Some 1,
      [OpenImage ''ref_ready.png'', PrintErr ''Error loading reference images'',
       SetThreadExecutionState 0x80000003, Connect, SetFocus, TypeKeys ''^T'', Sleep 1,
       Connect, ClickInput ''Continue'', Connect, ClickInput ''Keep All'', Connect,
       Connect, Descendants, CaptureAsImage, SetThreadExecutionState 0x80000000,
       SaveTimings, Traceback AttributeError])"
  by (simp del: wait_until_inactive.simps add: eval_defs)

section \<open>The sleep inhibition of \<^verbatim>\<open>run\<close>\<close>

lemma set_keep_awake_True:
  "set_keep_awake True s =
     (Inr (), s\<lparr>trace := trace s @ [SetThreadExecutionState
                  (ES_CONTINUOUS OR ES_SYSTEM_REQUIRED OR ES_DISPLAY_REQUIRED)],
               execution_state := ES_CONTINUOUS OR ES_SYSTEM_REQUIRED OR ES_DISPLAY_REQUIRED\<rparr>)"
  by (simp add: set_keep_awake_def Let_def bnd_def emit_def modify_def)

lemma set_keep_awake_False:
  "set_keep_awake False s =
     (Inr (), s\<lparr>trace := trace s @ [SetThreadExecutionState ES_CONTINUOUS],
               execution_state := ES_CONTINUOUS\<rparr>)"
  by (simp add: set_keep_awake_def bnd_def emit_def modify_def)

lemma try_finally_release:
  assumes "m s = (r, s1)"
  shows "try_finally m (set_keep_awake False) s =
          (if r = Inl OutOfFuel then (r, s1)
           else (r, s1\<lparr>trace := trace s1 @ [SetThreadExecutionState ES_CONTINUOUS],
                       execution_state := ES_CONTINUOUS\<rparr>))"
  using assms
  by (auto simp: try_finally_def set_keep_awake_False split: sum.splits abort.splits)

text \<open>
  C9. \<open>run\<close> first sets the execution state to keep the system and the display awake,
  and every execution of \<open>run\<close> that ends (with a value, an exception or \<open>exit\<close>) ends
  with the call that resets it: the last event is that call and the two flags are clear.
\<close>

theorem keep_awake_released:
  assumes "fst (run w n a s) \<noteq> Inl OutOfFuel"
  shows "execution_state (snd (run w n a s)) = ES_CONTINUOUS \<and>
         execution_state (snd (run w n a s)) AND (ES_SYSTEM_REQUIRED OR ES_DISPLAY_REQUIRED) = 0 \<and>
         (\<exists>mid. new_events s (snd (run w n a s)) =
            SetThreadExecutionState (ES_CONTINUOUS OR ES_SYSTEM_REQUIRED OR ES_DISPLAY_REQUIRED)
              # mid @ [SetThreadExecutionState ES_CONTINUOUS])"
proof -
  define s0 where "s0 = s\<lparr>trace := trace s @ [SetThreadExecutionState
                  (ES_CONTINUOUS OR ES_SYSTEM_REQUIRED OR ES_DISPLAY_REQUIRED)],
               execution_state := ES_CONTINUOUS OR ES_SYSTEM_REQUIRED OR ES_DISPLAY_REQUIRED\<rparr>"
  obtain r s1 where body: "run_try w n a s0 = (r, s1)" by (cases "run_try w n a s0")
  from emitsD[OF run_try_any body] obtain mid where mid: "trace s1 = trace s0 @ mid" by blast
  have run: "run w n a s = try_finally (run_try w n a) (set_keep_awake False) s0"
    by (simp add: run_def bnd_def set_keep_awake_True s0_def)
  have r: "r \<noteq> Inl OutOfFuel"
    using assms unfolding run try_finally_release[where m = "run_try w n a", OF body] by auto
  then have fin: "run w n a s = (r, s1\<lparr>trace := trace s1 @ [SetThreadExecutionState ES_CONTINUOUS],
                       execution_state := ES_CONTINUOUS\<rparr>)"
    unfolding run try_finally_release[where m = "run_try w n a", OF body] by simp
  have "new_events s (snd (run w n a s)) =
      SetThreadExecutionState (ES_CONTINUOUS OR ES_SYSTEM_REQUIRED OR ES_DISPLAY_REQUIRED)
        # mid @ [SetThreadExecutionState ES_CONTINUOUS]"
    unfolding fin using mid by (simp add: new_events_def s0_def)
  moreover have "ES_CONTINUOUS AND (ES_SYSTEM_REQUIRED OR ES_DISPLAY_REQUIRED) = 0"
    by (simp add: ES_CONTINUOUS_def ES_SYSTEM_REQUIRED_def ES_DISPLAY_REQUIRED_def)
  ultimately show ?thesis unfolding fin by simp
qed


theorem keep_awake_released_witness:
  "fst (run idle_world (Suc 0) empty_args (startup idle_world empty_args))
     = Inl (Raise ValueError) \<and>
   execution_state (snd (run idle_world (Suc 0) empty_args (startup idle_world empty_args)))
     = ES_CONTINUOUS \<and>
   execution_state (snd (run idle_world (Suc 0) empty_args (startup idle_world empty_args)))
     AND (ES_SYSTEM_REQUIRED OR ES_DISPLAY_REQUIRED) = 0"
proof -
  have r: "fst (run idle_world (Suc 0) empty_args (startup idle_world empty_args))
             = Inl (Raise ValueError)"
    by (simp del: wait_until_inactive.simps add: eval_defs)
  then have h: "fst (run idle_world (Suc 0) empty_args (startup idle_world empty_args))
             \<noteq> Inl OutOfFuel"
    by simp
  show ?thesis using r keep_awake_released [OF h]
    by (simp add: ES_CONTINUOUS_def ES_SYSTEM_REQUIRED_def ES_DISPLAY_REQUIRED_def)
qed

section \<open>From \<^verbatim>\<open>send_prompt\<close> to the exit status of the process\<close>

lemma run_try_setup:
  "run_try w n a =
     bnd (run_setup w a) (\<lambda>early.
       case early of
         Some r \<Rightarrow> ret r
       | None \<Rightarrow> bnd (\<lambda>s. send_prompt w n (bezi_prompt s) s) (\<lambda>result.
                  ret (True, Submission result)))"
  by (rule ext) (simp add: run_try_def run_setup_def bnd_def ret_def split: prod.splits sum.splits)

lemma BeziBridge_init_returns: "fst (BeziBridge_init w s) = Inr ()"
  by (simp add: BeziBridge_init_def image_open_def bnd_def modify_def try_except_def emit_def
      lift_exn_def print_err_def split: sum.splits prod.splits abort.splits)

lemma script_startup:
  "script w n a blank =
     try_finally
       (bnd (run w n a) (\<lambda>(success, result).
        if success then emit (PrintOut result) else ret ()))
       (emit SaveTimings) (startup w a)"
proof -
  obtain s0 where i: "BeziBridge_init w blank = (Inr (), s0)"
    using BeziBridge_init_returns[of w blank] by (cases "BeziBridge_init w blank") simp
  show ?thesis
    by (simp add: script_def startup_def bnd_def i parse_arguments_def modify_def ret_def)
qed

lemma main_of_run:
  assumes "run w n a (startup w a) = (r, s1)"
  shows "main w n a =
     (case r of
        Inr (success, result) \<Rightarrow>
          (Some 0, trace s1 @ (if success then [PrintOut result] else []) @ [SaveTimings])
      | Inl (Raise e) \<Rightarrow> (Some 1, trace s1 @ [SaveTimings, Traceback e])
      | Inl (Exit k) \<Rightarrow> (Some k, trace s1 @ [SaveTimings])
      | Inl OutOfFuel \<Rightarrow> (None, trace s1))"
  using assms
  by (simp add: main_def script_startup try_finally_def bnd_def emit_def ret_def
      split: sum.splits abort.splits prod.splits)

lemma run_of_run_try:
  assumes "run_try w n a (snd (set_keep_awake True s)) = (r, s1)"
  shows "run w n a s =
          (if r = Inl OutOfFuel then (r, s1)
           else (r, s1\<lparr>trace := trace s1 @ [SetThreadExecutionState ES_CONTINUOUS],
                       execution_state := ES_CONTINUOUS\<rparr>))"
  using try_finally_release[where m = "run_try w n a", OF assms]
  by (simp add: run_def bnd_def set_keep_awake_True)

lemma run_try_of_send_prompt:
  assumes "run_setup w a s0 = (Inr None, s)" and "send_prompt w n (bezi_prompt s) s = (r, s')"
  shows "run_try w n a s0 = (map_sum id (\<lambda>result. (True, Submission result)) r, s')"
  using assms by (cases r) (simp_all add: run_try_setup bnd_def ret_def)

lemma first_of_size_none:
  "list_all (\<lambda>c. case ctl_rectangle c of Inl e \<Rightarrow> False
                  | Inr (wd, ht) \<Rightarrow> \<not> (wd = 56 \<and> ht = 56)) items \<Longrightarrow>
   first_of_size items = Inr None"
  by (induction items)
     (auto simp: bezi_submit_btn_width_def bezi_submit_btn_height_def split: sum.splits)

lemma find_windows_sets_window:
  "find_windows w s = (Inr (), s1) \<Longrightarrow> bezi_window s1 = Some BeziWindow"
  by (auto simp: find_windows_def try_except_def bnd_def ui_call_def lift_exn_def modify_def
      print_err_def emit_def getattr_def
      split: sum.splits prod.splits abort.splits option.splits if_splits)

lemma find_windows_connects:
  "find_windows w s = (r, s') \<Longrightarrow> \<exists>rest. trace s' = trace s @ Connect # rest"
  by (auto simp: find_windows_def try_except_def bnd_def ui_call_def lift_exn_def modify_def
      print_err_def emit_def getattr_def now_def
      split: sum.splits prod.splits abort.splits option.splits if_splits)

lemma run_setup_rest_any:
  "emits any_event
     (bnd (validate_arguments w) (\<lambda>valid.
      if \<not> valid then ret (Some (False, Message ''Invalid Args''))
      else
      bnd (getattr args AttributeError) (\<lambda>a'.
      if init a'
      then bnd (getattr config TypeError) (\<lambda>c'.
           bnd (save_config w c') (\<lambda>u.
           ret (Some (True, Message ''Initialization Complete''))))
      else
      bnd (new_thread w) (\<lambda>u.
      ret None))))"
  unfolding save_config_def
  by (intro emits_more new_thread_any validate_arguments_any) (simp_all add: any_event_def)

lemma run_setup_connects:
  assumes "run_setup w a s0 = (Inr early, s)"
  shows "Connect \<in> set (new_events s0 s)"
proof -
  from assms[unfolded run_setup_def] show ?thesis
  proof (cases rule: bndE)
    case (continue c s1)
    from emitsD[OF load_config_any continue(1)]
    obtain e1 where e1: "trace s1 = trace s0 @ e1" by blast
    from continue(2) show ?thesis
    proof (cases rule: bndE)
      case (continue u s2)
      then have e2: "trace s2 = trace s1" by (auto simp: modify_def)
      from continue(2) show ?thesis
      proof (cases rule: bndE)
        case (continue parsed s3)
        from emitsD[OF parse_arguments_any continue(1)]
        obtain e3 where e3: "trace s3 = trace s2 @ e3" by blast
        from continue(2) show ?thesis
        proof (cases rule: bndE)
          case (continue u4 s4)
          from find_windows_connects[OF continue(1)]
          obtain e4 where e4: "trace s4 = trace s3 @ Connect # e4" by blast
          from emitsD[OF run_setup_rest_any continue(2)]
          obtain e5 where e5: "trace s = trace s4 @ e5" by blast
          show ?thesis using e1 e2 e3 e4 e5 by (simp add: new_events_def)
        qed simp
      qed simp
    qed simp
  qed simp
qed

lemmas eval_defs2 = eval_defs no_button_world_def no_edit_world_def run_setup_def
  submission_state_def

text \<open>
  C2, as the code has it. \<open>send_prompt\<close> rejects the empty prompt as its first
  statement, before any operation of its own: it raises \<open>ValueError\<close> and leaves the
  state and the trace as they were. \<open>run\<close>, however, calls \<open>send_prompt\<close> only after
  \<open>find_windows\<close> and \<open>new_thread\<close>: every run that gets to the check has connected
  to the window before, and with the empty prompt it ends with the traceback of
  \<open>ValueError\<close> and exit status 1. In the example the window is acquired four times, is
  given the focus, is sent Ctrl+T and is searched for two dialogs before the rejection.
\<close>

theorem empty_prompt_run_touches_window:
  "main idle_world (Suc 0) empty_args =
     (Some 1,
      [OpenImage ''ref_ready.png'', OpenImage ''ref_ready_active.png'',
       OpenImage ''ref_busy.png'', SetThreadExecutionState 0x80000003,
       Connect, SetFocus, TypeKeys ''^T'', Sleep 1, Connect,
       ClickInput ''Continue'', Connect, ClickInput ''Keep All'', Connect,
       SetThreadExecutionState 0x80000000, SaveTimings, Traceback ValueError]) \<and>
   length (filter (\<lambda>e. e = Connect) (snd (main idle_world (Suc 0) empty_args))) = 4"
  by (simp del: wait_until_inactive.simps add: eval_defs2)

theorem empty_prompt_rejected_by_send_prompt:
  "send_prompt w n (Some []) s = (Inl (Raise ValueError), s) \<and>
   (run_setup w a (snd (set_keep_awake True (startup w a))) = (Inr None, s) \<and>
    bezi_prompt s = Some [] \<longrightarrow>
      Connect \<in> set (trace s) \<and>
      main w n a =
        (Some 1, trace s @ [SetThreadExecutionState ES_CONTINUOUS, SaveTimings,
                            Traceback ValueError]))"
proof -
  have sp: "send_prompt w n (Some []) s = (Inl (Raise ValueError), s)"
    by (simp add: send_prompt_def truthy_def raise_def)
  moreover
  { assume reach: "run_setup w a (snd (set_keep_awake True (startup w a))) = (Inr None, s)"
      and empty: "bezi_prompt s = Some []"
    from run_setup_connects[OF reach] have "Connect \<in> set (trace s)"
      by (auto simp: new_events_def dest: in_set_dropD)
    moreover
    from sp empty have "send_prompt w n (bezi_prompt s) s = (Inl (Raise ValueError), s)" by simp
    from run_try_of_send_prompt[OF reach this]
    have "run_try w n a (snd (set_keep_awake True (startup w a))) = (Inl (Raise ValueError), s)"
      by simp
    from run_of_run_try[OF this]
    have "run w n a (startup w a) =
           (Inl (Raise ValueError),
            s\<lparr>trace := trace s @ [SetThreadExecutionState ES_CONTINUOUS],
              execution_state := ES_CONTINUOUS\<rparr>)"
      by simp
    from main_of_run[OF this]
    have "main w n a =
        (Some 1, trace s @ [SetThreadExecutionState ES_CONTINUOUS, SaveTimings,
                            Traceback ValueError])"
      by simp
    ultimately have "Connect \<in> set (trace s) \<and> main w n a =
        (Some 1, trace s @ [SetThreadExecutionState ES_CONTINUOUS, SaveTimings,
                            Traceback ValueError])" by simp
  }
  ultimately show ?thesis by blast
qed

theorem empty_prompt_rejected_by_send_prompt_witness:
  "send_prompt idle_world (Suc 0) (Some []) (submission_state idle_world empty_args) =
     (Inl (Raise ValueError), submission_state idle_world empty_args) \<and>
   run_setup idle_world empty_args (snd (set_keep_awake True (startup idle_world empty_args)))
     = (Inr None, submission_state idle_world empty_args) \<and>
   bezi_prompt (submission_state idle_world empty_args) = Some [] \<and>
   Connect \<in> set (trace (submission_state idle_world empty_args)) \<and>
   main idle_world (Suc 0) empty_args =
     (Some 1, trace (submission_state idle_world empty_args) @
        [SetThreadExecutionState ES_CONTINUOUS, SaveTimings, Traceback ValueError])"
proof -
  have reach: "run_setup idle_world empty_args
       (snd (set_keep_awake True (startup idle_world empty_args)))
     = (Inr None, submission_state idle_world empty_args)"
    by (simp del: wait_until_inactive.simps add: eval_defs2)
  have empty: "bezi_prompt (submission_state idle_world empty_args) = Some []"
    by (simp del: wait_until_inactive.simps add: eval_defs2)
  show ?thesis
    using reach empty
      empty_prompt_rejected_by_send_prompt [of idle_world "Suc 0"
        "submission_state idle_world empty_args" empty_args]
    by simp
qed

text \<open>
  C8. When the run gets to the submission with a non-empty prompt and the window, once
  acquired, has no descendant whose rectangle is 56 by 56 (all rectangles readable),
  the first \<open>get_bezi_state\<close> prints the diagnostic and exits with status 1 without
  capturing or classifying anything; \<open>send_prompt\<close> ends there, in the condition of its
  first loop, so the body of the polling loop is never run; and the process ends with
  exit status 1 after the two cleanups.
\<close>

theorem missing_button_is_fatal:
  assumes reach: "run_setup w a (snd (set_keep_awake True (startup w a))) = (Inr None, s)"
    and msg: "truthy (bezi_prompt s)"
    and win: "find_windows w s = (Inr (), s1)"
    and ds: "descendants w (now s1) = Inr items"
    and none: "list_all (\<lambda>c. case ctl_rectangle c of Inl e \<Rightarrow> False
                  | Inr (wd, ht) \<Rightarrow> \<not> (wd = 56 \<and> ht = 56)) items"
  shows "get_bezi_state w s =
           (Inl (Exit 1),
            s1\<lparr>trace := trace s1 @ [Descendants, PrintErr ''unable to find submit button'']\<rparr>) \<and>
         send_prompt w (Suc n) (bezi_prompt s) s =
           (Inl (Exit 1),
            s1\<lparr>trace := trace s1 @ [Descendants, PrintErr ''unable to find submit button'']\<rparr>) \<and>
         main w (Suc n) a =
           (Some 1, trace s1 @ [Descendants, PrintErr ''unable to find submit button'',
                                SetThreadExecutionState ES_CONTINUOUS, SaveTimings])"
proof -
  let ?s2 = "s1\<lparr>trace := trace s1 @ [Descendants, PrintErr ''unable to find submit button'']\<rparr>"
  have bw: "bezi_window s1 = Some BeziWindow" using win by (rule find_windows_sets_window)
  have fsb: "find_submit_button w s1 = (Inr None, s1\<lparr>trace := trace s1 @ [Descendants]\<rparr>)"
    using ds bw first_of_size_none[OF none]
    by (simp add: find_submit_button_def window_descendants_def bnd_def getattr_def ui_call_def
        lift_exn_def ret_def)
  have g: "get_bezi_state w s = (Inl (Exit 1), ?s2)"
    by (simp add: get_bezi_state_def bnd_def win fsb print_err_def emit_def py_exit_def)
  obtain ptext where p: "bezi_prompt s = Some ptext" "ptext \<noteq> []"
    using msg by (cases "bezi_prompt s") (auto simp: truthy_def)
  have sp: "send_prompt w (Suc n) (bezi_prompt s) s = (Inl (Exit 1), ?s2)"
    using p by (simp add: send_prompt_def truthy_def bnd_def g)
  from run_try_of_send_prompt[OF reach sp]
  have "run_try w (Suc n) a (snd (set_keep_awake True (startup w a))) = (Inl (Exit 1), ?s2)"
    by simp
  from run_of_run_try[OF this]
  have "run w (Suc n) a (startup w a) =
           (Inl (Exit 1),
            ?s2\<lparr>trace := trace ?s2 @ [SetThreadExecutionState ES_CONTINUOUS],
              execution_state := ES_CONTINUOUS\<rparr>)"
    by simp
  from main_of_run[OF this]
  have "main w (Suc n) a =
           (Some 1, trace s1 @ [Descendants, PrintErr ''unable to find submit button'',
                                SetThreadExecutionState ES_CONTINUOUS, SaveTimings])"
    by simp
  with g sp show ?thesis by simp
qed

theorem missing_button_is_fatal_witness:
  "run_setup no_button_world hello_args
       (snd (set_keep_awake True (startup no_button_world hello_args)))
     = (Inr None, submission_state no_button_world hello_args) \<and>
   truthy (bezi_prompt (submission_state no_button_world hello_args)) \<and>
   fst (find_windows no_button_world (submission_state no_button_world hello_args)) = Inr () \<and>
   descendants no_button_world
       (now (snd (find_windows no_button_world (submission_state no_button_world hello_args))))
     = Inr [reply_text, prompt_box] \<and>
   list_all (\<lambda>c. case ctl_rectangle c of Inl e \<Rightarrow> False
                  | Inr (wd, ht) \<Rightarrow> \<not> (wd = 56 \<and> ht = 56)) [reply_text, prompt_box] \<and>
   fst (get_bezi_state no_button_world (submission_state no_button_world hello_args))
     = Inl (Exit 1) \<and>
   fst (send_prompt no_button_world (Suc 0) (Some ''Hello'')
          (submission_state no_button_world hello_args)) = Inl (Exit 1) \<and>
   main no_button_world (Suc 0) hello_args =
     (Some 1,
      [OpenImage ''ref_ready.png'', OpenImage ''ref_ready_active.png'',
       OpenImage ''ref_busy.png'', SetThreadExecutionState 0x80000003,
       Connect, SetFocus, TypeKeys ''^T'', Sleep 1, Connect,
       ClickInput ''Continue'', Connect, ClickInput ''Keep All'', Connect,
       Connect, Descendants, PrintErr ''unable to find submit button'',
       SetThreadExecutionState 0x80000000, SaveTimings])"
proof -
  let ?s = "submission_state no_button_world hello_args"
  let ?s1 = "snd (find_windows no_button_world ?s)"
  have reach: "run_setup no_button_world hello_args
       (snd (set_keep_awake True (startup no_button_world hello_args))) = (Inr None, ?s)"
    by (simp del: wait_until_inactive.simps add: eval_defs2)
  have msg: "truthy (bezi_prompt ?s)"
    by (simp del: wait_until_inactive.simps add: eval_defs2)
  have p: "bezi_prompt ?s = Some ''Hello''"
    by (simp del: wait_until_inactive.simps add: eval_defs2)
  have winr: "fst (find_windows no_button_world ?s) = Inr ()"
    by (simp del: wait_until_inactive.simps add: eval_defs2)
  then have win: "find_windows no_button_world ?s = (Inr (), ?s1)"
    by (simp add: prod_eq_iff)
  have ds: "descendants no_button_world (now ?s1) = Inr [reply_text, prompt_box]"
    by (simp add: no_button_world_def ui_world_def)
  have none: "list_all (\<lambda>c. case ctl_rectangle c of Inl e \<Rightarrow> False
                  | Inr (wd, ht) \<Rightarrow> \<not> (wd = 56 \<and> ht = 56)) [reply_text, prompt_box]"
    by (simp add: reply_text_def prompt_box_def)
  have t: "trace ?s1 =
      [OpenImage ''ref_ready.png'', OpenImage ''ref_ready_active.png'',
       OpenImage ''ref_busy.png'', SetThreadExecutionState 0x80000003,
       Connect, SetFocus, TypeKeys ''^T'', Sleep 1, Connect,
       ClickInput ''Continue'', Connect, ClickInput ''Keep All'', Connect, Connect]"
    by (simp del: wait_until_inactive.simps add: eval_defs2)
  show ?thesis
    using reach msg winr ds none
      missing_button_is_fatal [OF reach msg win ds none, of 0]
    by (simp add: p t ES_CONTINUOUS_def)
qed

text \<open>
  C3, as the code has it. When the window has no edit control at the submission step,
  \<open>send_prompt\<close> prints the diagnostic and returns \<^verbatim>\<open>False\<close> at once, without a
  second attempt; \<open>run\<close> wraps it as \<^verbatim>\<open>(True, False)\<close>, and the script prints
  \<^verbatim>\<open>False\<close> and ends with exit status 0, not with a non-zero one.
\<close>

theorem missing_prompt_box_exits_zero:
  "main no_edit_world (Suc 0) hello_args =
     (Some 0,
      [OpenImage ''ref_ready.png'', OpenImage ''ref_ready_active.png'',
       OpenImage ''ref_busy.png'', SetThreadExecutionState 0x80000003,
       Connect, SetFocus, TypeKeys ''^T'', Sleep 1, Connect,
       ClickInput ''Continue'', Connect, ClickInput ''Keep All'', Connect,
       Connect, Descendants, CaptureAsImage, Reading INACTIVE,
       ClickInput ''Continue'', Connect, ClickInput ''Keep All'', Connect,
       Connect, Descendants, PrintErr ''unable to find prompt box'',
       SetThreadExecutionState 0x80000000,
       PrintOut (Submission ReturnedFalse), SaveTimings])"
  by (simp del: wait_until_inactive.simps add: eval_defs2)

theorem missing_prompt_box_returns_false:
  assumes reach: "run_setup w a (snd (set_keep_awake True (startup w a))) = (Inr None, s)"
    and msg: "truthy (bezi_prompt s)"
    and idle: "wait_until_inactive w n s = (Inr (), s1)"
    and reap: "close_dialogs w s1 = (Inr (), s2)"
    and win: "find_windows w s2 = (Inr (), s3)"
    and ds: "descendants w (now s3) = Inr items"
    and none: "filter (\<lambda>c. ctl_type c = Edit) items = []"
  shows "send_prompt w n (bezi_prompt s) s =
           (Inr ReturnedFalse,
            s3\<lparr>trace := trace s3 @ [Descendants, PrintErr ''unable to find prompt box'']\<rparr>) \<and>
         main w n a =
           (Some 0, trace s3 @ [Descendants, PrintErr ''unable to find prompt box'',
                                SetThreadExecutionState ES_CONTINUOUS,
                                PrintOut (Submission ReturnedFalse), SaveTimings])"
proof -
  let ?s4 = "s3\<lparr>trace := trace s3 @ [Descendants, PrintErr ''unable to find prompt box'']\<rparr>"
  have bw: "bezi_window s3 = Some BeziWindow" using win by (rule find_windows_sets_window)
  obtain ptext where p: "bezi_prompt s = Some ptext" "ptext \<noteq> []"
    using msg by (cases "bezi_prompt s") (auto simp: truthy_def)
  have sp: "send_prompt w n (bezi_prompt s) s = (Inr ReturnedFalse, ?s4)"
    using p ds bw none
    by (simp add: send_prompt_def truthy_def bnd_def idle reap win try_except_def
        window_descendants_def getattr_def ui_call_def lift_exn_def ret_def py_last_def
        print_err_def emit_def)
  from run_try_of_send_prompt[OF reach sp]
  have "run_try w n a (snd (set_keep_awake True (startup w a)))
          = (Inr (True, Submission ReturnedFalse), ?s4)"
    by simp
  from run_of_run_try[OF this]
  have "run w n a (startup w a) =
           (Inr (True, Submission ReturnedFalse),
            ?s4\<lparr>trace := trace ?s4 @ [SetThreadExecutionState ES_CONTINUOUS],
              execution_state := ES_CONTINUOUS\<rparr>)"
    by simp
  from main_of_run[OF this]
  have "main w n a =
           (Some 0, trace s3 @ [Descendants, PrintErr ''unable to find prompt box'',
                                SetThreadExecutionState ES_CONTINUOUS,
                                PrintOut (Submission ReturnedFalse), SaveTimings])"
    by simp
  with sp show ?thesis by simp
qed

theorem missing_prompt_box_returns_false_witness:
  "run_setup no_edit_world hello_args
       (snd (set_keep_awake True (startup no_edit_world hello_args)))
     = (Inr None, submission_state no_edit_world hello_args) \<and>
   truthy (bezi_prompt (submission_state no_edit_world hello_args)) \<and>
   fst (wait_until_inactive no_edit_world (Suc 0) (submission_state no_edit_world hello_args))
     = Inr () \<and>
   filter (\<lambda>c. ctl_type c = Edit) [reply_text, submit_button icon_inactive] = [] \<and>
   fst (send_prompt no_edit_world (Suc 0) (Some ''Hello'')
          (submission_state no_edit_world hello_args)) = Inr ReturnedFalse \<and>
   fst (main no_edit_world (Suc 0) hello_args) = Some 0"
proof -
  let ?w = "no_edit_world"
  let ?s = "submission_state no_edit_world hello_args"
  let ?s1 = "snd (wait_until_inactive ?w (Suc 0) ?s)"
  let ?s2 = "snd (close_dialogs ?w ?s1)"
  let ?s3 = "snd (find_windows ?w ?s2)"
  have reach: "run_setup ?w hello_args
       (snd (set_keep_awake True (startup ?w hello_args))) = (Inr None, ?s)"
    by (simp del: wait_until_inactive.simps add: eval_defs2)
  have msg: "truthy (bezi_prompt ?s)"
    by (simp del: wait_until_inactive.simps add: eval_defs2)
  have p: "bezi_prompt ?s = Some ''Hello''"
    by (simp del: wait_until_inactive.simps add: eval_defs2)
  have idler: "fst (wait_until_inactive ?w (Suc 0) ?s) = Inr ()"
    by (simp del: wait_until_inactive.simps add: eval_defs2)
  then have idle: "wait_until_inactive ?w (Suc 0) ?s = (Inr (), ?s1)"
    by (simp add: prod_eq_iff)
  have reap: "close_dialogs ?w ?s1 = (Inr (), ?s2)"
    by (simp del: wait_until_inactive.simps add: eval_defs2)
  have win: "find_windows ?w ?s2 = (Inr (), ?s3)"
    by (simp del: wait_until_inactive.simps add: eval_defs2)
  have ds: "descendants ?w (now ?s3) = Inr [reply_text, submit_button icon_inactive]"
    by (simp add: no_edit_world_def ui_world_def)
  have none: "filter (\<lambda>c. ctl_type c = Edit) [reply_text, submit_button icon_inactive] = []"
    by (simp add: reply_text_def submit_button_def)
  show ?thesis
    using reach msg idler none
      missing_prompt_box_returns_false [OF reach msg idle reap win ds none]
    by (simp add: p)
qed

end
